theory Spec2Isabelle
  imports Main
begin

section \<open>Data model\<close>

text \<open>
  The repository holds three variants of one console game: \<^verbatim>\<open>functional.py\<close> (module-level
  board of \<^verbatim>\<open>None\<close>/\<^verbatim>\<open>True\<close>/\<^verbatim>\<open>False\<close>), \<^verbatim>\<open>oop.py\<close> (classes \<^verbatim>\<open>Player\<close>, \<^verbatim>\<open>Players\<close>,
  \<^verbatim>\<open>Board\<close>) and \<^verbatim>\<open>oop_npc.py\<close> (the same classes plus a random opponent).

  Exceptions are values of the type \<open>error\<close>; a function that may raise returns
  \<open>error + 'a\<close> with \<open>Inl\<close> for the exception. \<open>ValueError\<close>, \<open>IndexError\<close>,
  and \<open>UnboundLocalError\<close> are the Python built-ins that \<^verbatim>\<open>int()\<close>, list indexing and
  reading a local variable that was never assigned raise.
\<close>

datatype error =
    UserExit
  | InvalidInput
  | InputOutOfBounds
  | WinnerWinnerChickenDinner
  | YouAllLose
  | ValueError
  | IndexError
  | UnboundLocalError

text \<open>
  \<^verbatim>\<open>class Player(Enum)\<close>. The members are named as in \<^verbatim>\<open>oop_npc.py\<close>; \<^verbatim>\<open>oop.py\<close> calls
  \<open>PLAYER\<close> \<^verbatim>\<open>PRIMARY\<close> and \<open>COMPUTER\<close> \<^verbatim>\<open>SECONDARY\<close>.
\<close>

datatype Player = EMPTY | PLAYER | COMPUTER

text \<open>
  A cell of the functional variant is \<^verbatim>\<open>None\<close>, \<^verbatim>\<open>True\<close> or \<^verbatim>\<open>False\<close>: a \<open>bool option\<close>.
  A grid is a list of rows. All variants build it with a nested list comprehension, so the
  three rows are distinct list objects and a nested list of values models it.

  functional.py keeps its state in the module-level variables \<^verbatim>\<open>board\<close> and \<^verbatim>\<open>turn\<close>: the
  record \<open>globals\<close>, whose field \<open>global_turn\<close> is the variable \<^verbatim>\<open>turn\<close>. Every function
  that reads or writes them takes the record and, where it writes, returns the new one.
\<close>

type_synonym 'a grid = "'a list list"

definition wf_grid :: "'a grid \<Rightarrow> bool" where
  "wf_grid g = (length g = 3 \<and> (\<forall>row \<in> set g. length row = 3))"

record globals =
  board :: "bool option grid"
  global_turn :: int

definition globals_init :: globals where
  "globals_init = \<lparr> board = map (\<lambda>x. map (\<lambda>i. None) [0..<3]) [0..<3], global_turn = 0 \<rparr>"

record Board =
  grid :: "Player grid"
  turn :: int

definition Board_init :: Board where
  "Board_init = \<lparr> grid = map (\<lambda>x. map (\<lambda>i. EMPTY) [0..<3]) [0..<3], turn = 0 \<rparr>"

subsection \<open>Python list indexing\<close>

text \<open>
  \<^verbatim>\<open>xs[i]\<close> and \<^verbatim>\<open>xs[i] = v\<close>: a negative index counts from the end, an index outside
  \<open>[-len, len)\<close> raises \<^verbatim>\<open>IndexError\<close>.
\<close>

definition py_index :: "'a list \<Rightarrow> int \<Rightarrow> error + nat" where
  "py_index xs i =
     (let n = int (length xs); j = (if i < 0 then n + i else i)
      in if 0 \<le> j \<and> j < n then Inr (nat j) else Inl IndexError)"

definition py_get :: "'a list \<Rightarrow> int \<Rightarrow> error + 'a" where
  "py_get xs i = (case py_index xs i of Inl e \<Rightarrow> Inl e | Inr j \<Rightarrow> Inr (xs ! j))"

definition py_set :: "'a list \<Rightarrow> int \<Rightarrow> 'a \<Rightarrow> error + 'a list" where
  "py_set xs i v = (case py_index xs i of Inl e \<Rightarrow> Inl e | Inr j \<Rightarrow> Inr (xs[j := v]))"

text \<open>\<^verbatim>\<open>g[row][col]\<close> and \<^verbatim>\<open>g[row][col] = v\<close> on a grid.\<close>

definition grid_get :: "'a grid \<Rightarrow> int \<Rightarrow> int \<Rightarrow> error + 'a" where
  "grid_get g row col =
     (case py_get g row of Inl e \<Rightarrow> Inl e | Inr r \<Rightarrow> py_get r col)"

definition grid_set :: "'a grid \<Rightarrow> int \<Rightarrow> int \<Rightarrow> 'a \<Rightarrow> error + 'a grid" where
  "grid_set g row col v =
     (case py_get g row of
        Inl e \<Rightarrow> Inl e
      | Inr r \<Rightarrow>
          (case py_set r col v of
             Inl e \<Rightarrow> Inl e
           | Inr r' \<Rightarrow> py_set g row r'))"

definition bind_err :: "error + 'a \<Rightarrow> ('a \<Rightarrow> error + 'b) \<Rightarrow> error + 'b" where
  "bind_err m f = (case m of Inl e \<Rightarrow> Inl e | Inr x \<Rightarrow> f x)"

text \<open>
  Python's \<^verbatim>\<open>a or b\<close> on booleans: \<open>b\<close> is evaluated only when \<open>a\<close> returned \<^verbatim>\<open>False\<close>, and
  an exception of \<open>a\<close> propagates.
\<close>

definition or_else :: "error + bool \<Rightarrow> error + bool \<Rightarrow> error + bool" where
  "or_else a b = bind_err a (\<lambda>x. if x then Inr True else b)"

text \<open>\<^verbatim>\<open>range(3)\<close>, the value of \<^verbatim>\<open>range(_BOARD_ROWS)\<close>, \<^verbatim>\<open>range(_BOARD_COLS)\<close>, \<^verbatim>\<open>range(self._SIZE)\<close>.\<close>

definition range3 :: "int list" where
  "range3 = [0, 1, 2]"

section \<open>Win detection\<close>

text \<open>
  The inner loops are the same text in all variants. \<open>cells_match\<close> is
  \<^verbatim>\<open>for cell in row: if cell != player: flag = False; break\<close> and returns the flag;
  \<open>column_match\<close> is \<^verbatim>\<open>for row in range(3): if grid[row][col] != player: flag = False; break\<close>.
\<close>

fun cells_match :: "'a list \<Rightarrow> 'a \<Rightarrow> bool" where
  "cells_match [] player = True"
| "cells_match (cell # cells) player =
     (if cell \<noteq> player then False else cells_match cells player)"

fun column_match :: "'a grid \<Rightarrow> 'a \<Rightarrow> int \<Rightarrow> int list \<Rightarrow> error + bool" where
  "column_match g player col [] = Inr True"
| "column_match g player col (row # rows) =
     bind_err (grid_get g row col)
       (\<lambda>cell. if cell \<noteq> player then Inr False else column_match g player col rows)"

text \<open>
  The diagonal check, the same text in all variants (\<^verbatim>\<open>center_point\<close> is 1 and \<^verbatim>\<open>corner\<close>
  is 2 in oop_npc.py). \<^verbatim>\<open>a == b == player\<close> is \<^verbatim>\<open>a == b and b == player\<close>.
\<close>

definition diags_check :: "'a grid \<Rightarrow> 'a \<Rightarrow> error + bool" where
  "diags_check g player =
     bind_err (grid_get g 1 1) (\<lambda>center.
       if \<not> (center = player) then Inr False
       else
         bind_err (grid_get g 0 0) (\<lambda>a.
         bind_err (grid_get g 2 2) (\<lambda>b.
           if a = b \<and> b = player then Inr True
           else
             bind_err (grid_get g 0 2) (\<lambda>c.
             bind_err (grid_get g 2 0) (\<lambda>d.
               if c = d \<and> d = player then Inr True
               else Inr False)))))"

subsection \<open>functional.py\<close>

text \<open>
  A player is a \<open>bool\<close>; a cell equals the player \<open>p\<close> when it is \<open>Some p\<close>. \<^verbatim>\<open>retval\<close> is
  unassigned (\<open>None\<close>) until the first iteration of the outer loop.
\<close>

fun check_rows_loop :: "bool option grid \<Rightarrow> bool \<Rightarrow> bool option \<Rightarrow> error + bool" where
  "check_rows_loop [] player retval =
     (case retval of None \<Rightarrow> Inl UnboundLocalError | Some r \<Rightarrow> Inr r)"
| "check_rows_loop (row # rows) player retval =
     (let retval = cells_match row (Some player)
      in if retval then Inr True else check_rows_loop rows player (Some retval))"

definition check_rows :: "globals \<Rightarrow> bool \<Rightarrow> error + bool" where
  "check_rows gs player = check_rows_loop (board gs) player None"

fun check_cols_loop ::
  "bool option grid \<Rightarrow> bool \<Rightarrow> int list \<Rightarrow> bool option \<Rightarrow> error + bool" where
  "check_cols_loop g player [] retval =
     (case retval of None \<Rightarrow> Inl UnboundLocalError | Some r \<Rightarrow> Inr r)"
| "check_cols_loop g player (col # cols) retval =
     bind_err (column_match g (Some player) col range3)
       (\<lambda>retval. if retval then Inr retval
                  else check_cols_loop g player cols (Some retval))"

definition check_cols :: "globals \<Rightarrow> bool \<Rightarrow> error + bool" where
  "check_cols gs player = check_cols_loop (board gs) player range3 None"

definition check_diags :: "globals \<Rightarrow> bool \<Rightarrow> error + bool" where
  "check_diags gs player = diags_check (board gs) (Some player)"

definition chicken_dinner :: "globals \<Rightarrow> bool \<Rightarrow> error + bool" where
  "chicken_dinner gs player =
     or_else (check_rows gs player)
       (or_else (check_cols gs player) (check_diags gs player))"

subsection \<open>oop.py and oop_npc.py\<close>

fun Board_check_rows_loop :: "Player grid \<Rightarrow> Player \<Rightarrow> bool" where
  "Board_check_rows_loop [] player = False"
| "Board_check_rows_loop (row # rows) player =
     (let checked_full_row = cells_match row player
      in if checked_full_row then True else Board_check_rows_loop rows player)"

definition Board_check_rows :: "Board \<Rightarrow> Player \<Rightarrow> bool" where
  "Board_check_rows b player = Board_check_rows_loop (grid b) player"

text \<open>oop_npc.py: \<^verbatim>\<open>[player] * Board._SIZE in self.grid\<close>.\<close>

definition Board_check_rows_npc :: "Board \<Rightarrow> Player \<Rightarrow> bool" where
  "Board_check_rows_npc b player =
     (if replicate 3 player \<in> set (grid b) then True else False)"

fun Board_check_cols_loop :: "Player grid \<Rightarrow> Player \<Rightarrow> int list \<Rightarrow> error + bool" where
  "Board_check_cols_loop g player [] = Inr False"
| "Board_check_cols_loop g player (col # cols) =
     bind_err (column_match g player col range3)
       (\<lambda>checked_full_col. if checked_full_col then Inr True
                            else Board_check_cols_loop g player cols)"

definition Board_check_cols :: "Board \<Rightarrow> Player \<Rightarrow> error + bool" where
  "Board_check_cols b player = Board_check_cols_loop (grid b) player range3"

definition Board_check_diags :: "Board \<Rightarrow> Player \<Rightarrow> error + bool" where
  "Board_check_diags b player = diags_check (grid b) player"

text \<open>
  \<^verbatim>\<open>Board.is_winner\<close> returns \<^verbatim>\<open>None\<close> or raises \<^verbatim>\<open>WinnerWinnerChickenDinner\<close>; the two files
  differ in the row check only.
\<close>

definition Board_is_winner :: "Board \<Rightarrow> Player \<Rightarrow> error + unit" where
  "Board_is_winner b player =
     bind_err
       (or_else (Inr (Board_check_rows b player))
          (or_else (Board_check_cols b player) (Board_check_diags b player)))
       (\<lambda>retval. if retval then Inl WinnerWinnerChickenDinner else Inr ())"

definition Board_is_winner_npc :: "Board \<Rightarrow> Player \<Rightarrow> error + unit" where
  "Board_is_winner_npc b player =
     bind_err
       (or_else (Inr (Board_check_rows_npc b player))
          (or_else (Board_check_cols b player) (Board_check_diags b player)))
       (\<lambda>retval. if retval then Inl WinnerWinnerChickenDinner else Inr ())"

subsection \<open>What a win is\<close>

text \<open>
  The reference notion the checks are compared with: a full row, a full column, or a full
  diagonal of the mark \<open>p\<close> on a 3 by 3 grid.
\<close>

definition row_win :: "'a grid \<Rightarrow> 'a \<Rightarrow> bool" where
  "row_win g p = (\<exists>r \<in> {0..<3}. \<forall>c \<in> {0..<3}. g ! r ! c = p)"

definition col_win :: "'a grid \<Rightarrow> 'a \<Rightarrow> bool" where
  "col_win g p = (\<exists>c \<in> {0..<3}. \<forall>r \<in> {0..<3}. g ! r ! c = p)"

definition diag_win :: "'a grid \<Rightarrow> 'a \<Rightarrow> bool" where
  "diag_win g p =
     ((\<forall>i \<in> {0..<3}. g ! i ! i = p) \<or> (\<forall>i \<in> {0..<3}. g ! i ! (2 - i) = p))"

definition has_won :: "'a grid \<Rightarrow> 'a \<Rightarrow> bool" where
  "has_won g p = (row_win g p \<or> col_win g p \<or> diag_win g p)"

section \<open>Coordinate conversion\<close>

text \<open>
  \<^verbatim>\<open>linear_position_to_coords\<close> (functional.py) and \<^verbatim>\<open>Board.get_coords\<close> (oop.py,
  oop_npc.py, where \<^verbatim>\<open>_SIZE\<close> is 3). Python's \<^verbatim>\<open>//\<close> and \<^verbatim>\<open>%\<close> round towards minus
  infinity, as \<open>div\<close> and \<open>mod\<close> on \<open>int\<close> do.
\<close>

definition linear_position_to_coords :: "int \<Rightarrow> int \<times> int" where
  "linear_position_to_coords position0 =
     (let position = position0 - 1;
          row = position div 3;
          col = position;
          col = (if col > 2 then col mod 3 else col)
      in (row, col))"

definition get_coords :: "int \<Rightarrow> int \<times> int" where
  "get_coords position0 =
     (let position = position0 - 1;
          row = position div 3;
          col = position;
          col = (if col > 2 then col mod 3 else col)
      in (row, col))"

section \<open>Board operations\<close>

subsection \<open>functional.py\<close>

definition is_taken :: "globals \<Rightarrow> int \<times> int \<Rightarrow> error + bool" where
  "is_taken gs coords =
     (case coords of (row, col) \<Rightarrow>
        bind_err (grid_get (board gs) row col) (\<lambda>cell. Inr (cell \<noteq> None)))"

definition add_to_board :: "globals \<Rightarrow> int \<times> int \<Rightarrow> bool \<Rightarrow> error + globals" where
  "add_to_board gs coords player =
     (case coords of (row, col) \<Rightarrow>
        bind_err (grid_set (board gs) row col (Some player))
          (\<lambda>g. Inr (gs\<lparr>board := g\<rparr>)))"

text \<open>\<^verbatim>\<open>check_tie\<close> increments the global \<^verbatim>\<open>turn\<close> and returns whether it is now 9.\<close>

definition check_tie :: "globals \<Rightarrow> globals \<times> bool" where
  "check_tie gs =
     (let gs = gs\<lparr>global_turn := global_turn gs + 1\<rparr>
      in (gs, global_turn gs = 3 * 3))"

subsection \<open>oop.py and oop_npc.py\<close>

definition Board_add :: "Board \<Rightarrow> int \<Rightarrow> Player \<Rightarrow> error + Board" where
  "Board_add b position player =
     (case get_coords position of (row, col) \<Rightarrow>
        bind_err (grid_set (grid b) row col player)
          (\<lambda>g. Inr (b\<lparr>grid := g\<rparr>)))"

definition Board_is_taken :: "Board \<Rightarrow> int \<Rightarrow> error + bool" where
  "Board_is_taken b position =
     (case get_coords position of (row, col) \<Rightarrow>
        bind_err (grid_get (grid b) row col) (\<lambda>cell. Inr (cell \<noteq> EMPTY)))"

text \<open>
  \<^verbatim>\<open>Board.is_tie\<close> increments \<^verbatim>\<open>self.turn\<close> and then raises \<^verbatim>\<open>YouAllLose\<close> when it is 9:
  the board is returned in both cases, with the exception if there is one.
\<close>

definition Board_is_tie :: "Board \<Rightarrow> Board \<times> (error + unit)" where
  "Board_is_tie b =
     (let b = b\<lparr>turn := turn b + 1\<rparr>;
          retval = (turn b = 3 * 3)
      in (b, if retval then Inl YouAllLose else Inr ()))"

section \<open>Move sources\<close>

text \<open>
  An input line is a \<open>string\<close>: a list of characters with code points below 256. On such
  strings \<^verbatim>\<open>str.isnumeric\<close>, \<^verbatim>\<open>str.casefold\<close> and \<^verbatim>\<open>int\<close> are as follows.

  \<^verbatim>\<open>isnumeric\<close> holds of a non-empty string of numeric characters: the decimal digits, the
  superscripts two, three and one (178, 179, 185) and the fractions one quarter, one half
  and three quarters (188, 189, 190).

  \<^verbatim>\<open>casefold\<close> maps the upper-case letters (65 to 90, and 192 to 222 without the
  multiplication sign 215) to the letter 32 code points higher, the micro sign (181) to the
  Greek letter mu (956), the sharp s (223) to two letters s, and every other character to
  itself; its result is a list of code points.

  \<^verbatim>\<open>int\<close> is called on strings that passed \<^verbatim>\<open>isnumeric\<close> only. Such a string holds no
  white space, sign or underscore, and \<^verbatim>\<open>int\<close> returns its decimal value when all its
  characters are decimal digits and there are at most \<open>int_max_str_digits\<close> of them,
  leading zeros counted; otherwise it raises \<^verbatim>\<open>ValueError\<close>: \<open>int_of_numeric\<close>.
  \<open>int_max_str_digits\<close> is the interpreter's limit on the length of a decimal string that
  \<^verbatim>\<open>int\<close> converts, \<^verbatim>\<open>sys.get_int_max_str_digits()\<close>; the program never changes its default
  of 4300.
\<close>

definition code_point :: "char \<Rightarrow> nat" where
  "code_point c = of_char c"

definition is_decimal_char :: "char \<Rightarrow> bool" where
  "is_decimal_char c = (48 \<le> code_point c \<and> code_point c \<le> 57)"

definition is_numeric_char :: "char \<Rightarrow> bool" where
  "is_numeric_char c =
     (is_decimal_char c \<or> code_point c \<in> {178, 179, 185, 188, 189, 190})"

definition isnumeric :: "string \<Rightarrow> bool" where
  "isnumeric s = (s \<noteq> [] \<and> list_all is_numeric_char s)"

definition casefold_char :: "char \<Rightarrow> nat list" where
  "casefold_char c =
     (let n = code_point c
      in if (65 \<le> n \<and> n \<le> 90) \<or> (192 \<le> n \<and> n \<le> 222 \<and> n \<noteq> 215) then [n + 32]
         else if n = 181 then [956]
         else if n = 223 then [115, 115]
         else [n])"

definition casefold :: "string \<Rightarrow> nat list" where
  "casefold s = concat (map casefold_char s)"

definition int_max_str_digits :: nat where
  "int_max_str_digits = 4300"

definition int_of_numeric :: "string \<Rightarrow> error + int" where
  "int_of_numeric s =
     (if s \<noteq> [] \<and> list_all is_decimal_char s \<and> length s \<le> int_max_str_digits
      then Inr (foldl (\<lambda>acc c. 10 * acc + (int (code_point c) - 48)) 0 s)
      else Inl ValueError)"

text \<open>
  \<^verbatim>\<open>get_user_input_as_int\<close> (functional.py) and \<^verbatim>\<open>get_user_input\<close> (oop.py, oop_npc.py).
  The argument is the line that \<^verbatim>\<open>input()\<close> returned.
\<close>

definition get_user_input_as_int :: "string \<Rightarrow> error + int" where
  "get_user_input_as_int input_string =
     (if casefold input_string = map code_point ''q'' then Inl UserExit
      else if \<not> isnumeric input_string then Inl InvalidInput
      else bind_err (int_of_numeric input_string)
             (\<lambda>input_num. if input_num < 1 \<or> input_num > 9 then Inl InputOutOfBounds
                            else Inr input_num))"

definition get_user_input :: "string \<Rightarrow> error + int" where
  "get_user_input input_string =
     (if casefold input_string = map code_point ''q'' then Inl UserExit
      else if \<not> isnumeric input_string then Inl InvalidInput
      else bind_err (int_of_numeric input_string)
             (\<lambda>input_num. if \<not> (1 \<le> input_num \<and> input_num \<le> 9) then Inl InputOutOfBounds
                            else Inr input_num))"

text \<open>
  \<^verbatim>\<open>get_location\<close> (oop_npc.py). \<open>samples\<close> holds the values that the successive calls of
  \<^verbatim>\<open>random.randint(1, 9)\<close> return. The \<^verbatim>\<open>while\<close> loop may run forever; the result
  \<open>Inr None\<close> says that it has not returned when the samples are used up.
\<close>

fun computer_loop :: "Board \<Rightarrow> int \<Rightarrow> int list \<Rightarrow> error + int option" where
  "computer_loop b location [] =
     bind_err (Board_is_taken b location)
       (\<lambda>taken. if taken then Inr None else Inr (Some location))"
| "computer_loop b location (sample # samples) =
     bind_err (Board_is_taken b location)
       (\<lambda>taken. if taken then computer_loop b sample samples else Inr (Some location))"

definition get_location :: "Board \<Rightarrow> Player \<Rightarrow> int list \<Rightarrow> string \<Rightarrow> error + int option" where
  "get_location b player samples input_string =
     (if player = COMPUTER
      then (case samples of
              [] \<Rightarrow> Inr None
            | location # samples \<Rightarrow> computer_loop b location samples)
      else bind_err (get_user_input input_string) (\<lambda>n. Inr (Some n)))"

section \<open>Player rotation\<close>

text \<open>
  \<^verbatim>\<open>class Players\<close>: the class attribute \<^verbatim>\<open>_current\<close> is the state; the tuple
  \<^verbatim>\<open>_players\<close> is indexed with that boolean, \<^verbatim>\<open>False\<close> being index 0 and \<^verbatim>\<open>True\<close> index 1.
\<close>

definition players_tuple :: "Player list" where
  "players_tuple = [COMPUTER, PLAYER]"

definition current :: "bool \<Rightarrow> Player" where
  "current cur = players_tuple ! (if cur then 1 else 0)"

definition switch :: "bool \<Rightarrow> bool \<times> Player" where
  "switch cur = (let cur' = \<not> cur in (cur', current cur'))"

definition Players_init :: bool where
  "Players_init = True"

section \<open>The game loop\<close>

text \<open>
  How an iteration of \<^verbatim>\<open>while True\<close> in \<^verbatim>\<open>main\<close> leaves the loop: \<open>Running\<close> when the
  loop goes on to its next iteration (normal end of the body, \<^verbatim>\<open>continue\<close>, or an
  exception that the handler only prints); \<open>Won\<close>, \<open>Tied\<close> and \<open>Quit\<close> for the three
  \<^verbatim>\<open>break\<close>s; \<open>Crashed e\<close> when the exception \<open>e\<close> matches no \<^verbatim>\<open>except\<close> clause and leaves
  \<^verbatim>\<open>main\<close>.
\<close>

datatype status = Running | Won | Tied | Quit | Crashed error

subsection \<open>functional.py\<close>

text \<open>
  The \<^verbatim>\<open>except\<close> clauses of \<^verbatim>\<open>main\<close>, and one iteration of its loop on the line that
  \<^verbatim>\<open>input()\<close> returns. The state is the pair of the module globals and the local variable
  \<^verbatim>\<open>player\<close>. \<open>main_loop\<close> runs the loop on the lines read so far: \<open>Running\<close> after the
  last line says that the loop is at its prompt again.
\<close>

fun main_except :: "error \<Rightarrow> status" where
  "main_except UserExit = Quit"
| "main_except InvalidInput = Running"
| "main_except InputOutOfBounds = Running"
| "main_except e = Crashed e"

definition main_step :: "globals \<times> bool \<Rightarrow> string \<Rightarrow> (globals \<times> bool) \<times> status" where
  "main_step s input_string =
     (case s of (gs, player) \<Rightarrow>
        (case get_user_input_as_int input_string of
           Inl e \<Rightarrow> (s, main_except e)
         | Inr location \<Rightarrow>
             (let coords = linear_position_to_coords location
              in case is_taken gs coords of
                   Inl e \<Rightarrow> (s, main_except e)
                 | Inr taken \<Rightarrow>
                     if taken then (s, Running)
                     else
                       (case add_to_board gs coords player of
                          Inl e \<Rightarrow> (s, main_except e)
                        | Inr gs \<Rightarrow>
                            (case chicken_dinner gs player of
                               Inl e \<Rightarrow> ((gs, player), main_except e)
                             | Inr win \<Rightarrow>
                                 if win then ((gs, player), Won)
                                 else
                                   (case check_tie gs of
                                      (gs, tie) \<Rightarrow>
                                        if tie then ((gs, player), Tied)
                                        else ((gs, \<not> player), Running)))))))"

fun main_loop :: "globals \<times> bool \<Rightarrow> string list \<Rightarrow> (globals \<times> bool) \<times> status" where
  "main_loop s [] = (s, Running)"
| "main_loop s (input_string # rest) =
     (case main_step s input_string of
        (s', st) \<Rightarrow> if st = Running then main_loop s' rest else (s', st))"

definition main :: "string list \<Rightarrow> (globals \<times> bool) \<times> status" where
  "main input_lines = main_loop (globals_init, True) input_lines"

subsection \<open>oop.py\<close>

text \<open>
  The state of \<^verbatim>\<open>main\<close>: the local variables \<^verbatim>\<open>board\<close> and \<^verbatim>\<open>current_player\<close> and the
  class attribute \<^verbatim>\<open>Players._current\<close>. \<^verbatim>\<open>Board.is_winner\<close> and \<^verbatim>\<open>Board.is_tie\<close> end the
  game by raising; the board keeps what was written before the exception.
\<close>

record session =
  the_board :: Board
  players_current :: bool
  current_player :: Player

definition session_init :: session where
  "session_init =
     \<lparr> the_board = Board_init, players_current = Players_init,
       current_player = current Players_init \<rparr>"

fun Board_main_except :: "error \<Rightarrow> status" where
  "Board_main_except UserExit = Quit"
| "Board_main_except InvalidInput = Running"
| "Board_main_except InputOutOfBounds = Running"
| "Board_main_except WinnerWinnerChickenDinner = Won"
| "Board_main_except YouAllLose = Tied"
| "Board_main_except e = Crashed e"

definition Board_main_step :: "session \<Rightarrow> string \<Rightarrow> session \<times> status" where
  "Board_main_step s input_string =
     (case get_user_input input_string of
        Inl e \<Rightarrow> (s, Board_main_except e)
      | Inr location \<Rightarrow>
          (case Board_is_taken (the_board s) location of
             Inl e \<Rightarrow> (s, Board_main_except e)
           | Inr taken \<Rightarrow>
               if taken then (s, Running)
               else
                 (case Board_add (the_board s) location (current_player s) of
                    Inl e \<Rightarrow> (s, Board_main_except e)
                  | Inr b \<Rightarrow>
                      (case Board_is_winner b (current_player s) of
                         Inl e \<Rightarrow> (s\<lparr>the_board := b\<rparr>, Board_main_except e)
                       | Inr u \<Rightarrow>
                           (case Board_is_tie b of
                              (b, Inl e) \<Rightarrow> (s\<lparr>the_board := b\<rparr>, Board_main_except e)
                            | (b, Inr u) \<Rightarrow>
                                (case switch (players_current s) of
                                   (cur, pl) \<Rightarrow>
                                     (s\<lparr>the_board := b, players_current := cur,
                                        current_player := pl\<rparr>, Running)))))))"

fun Board_main_loop :: "session \<Rightarrow> string list \<Rightarrow> session \<times> status" where
  "Board_main_loop s [] = (s, Running)"
| "Board_main_loop s (input_string # rest) =
     (case Board_main_step s input_string of
        (s', st) \<Rightarrow> if st = Running then Board_main_loop s' rest else (s', st))"

definition Board_main :: "string list \<Rightarrow> session \<times> status" where
  "Board_main input_lines = Board_main_loop session_init input_lines"

text \<open>The number of cells of a grid that differ from the empty mark \<open>e\<close>.\<close>

definition occupied :: "'a \<Rightarrow> 'a grid \<Rightarrow> nat" where
  "occupied e g = length (filter (\<lambda>cell. cell \<noteq> e) (concat g))"

text \<open>
  The invariants of the two loops: the grid is 3 by 3 and the move counter is the number
  of occupied cells; after a winning move the counter is one behind.
\<close>

definition Board_inv :: "session \<Rightarrow> bool" where
  "Board_inv s \<longleftrightarrow>
     wf_grid (grid (the_board s))
     \<and> turn (the_board s) = int (occupied EMPTY (grid (the_board s)))
     \<and> current_player s \<noteq> EMPTY"

definition Board_won_inv :: "session \<Rightarrow> bool" where
  "Board_won_inv s \<longleftrightarrow>
     wf_grid (grid (the_board s))
     \<and> turn (the_board s) + 1 = int (occupied EMPTY (grid (the_board s)))"

definition main_inv :: "globals \<Rightarrow> bool" where
  "main_inv gs \<longleftrightarrow>
     wf_grid (board gs) \<and> global_turn gs = int (occupied None (board gs))"

definition main_won_inv :: "globals \<Rightarrow> bool" where
  "main_won_inv gs \<longleftrightarrow>
     wf_grid (board gs) \<and> global_turn gs + 1 = int (occupied None (board gs))"

section \<open>Properties\<close>

subsection \<open>Coordinate conversion\<close>

lemma get_coords_eq: "get_coords p = linear_position_to_coords p"
  by (simp add: get_coords_def linear_position_to_coords_def)

lemma coords_in_range:
  assumes "1 \<le> p" "p \<le> 9"
  shows "linear_position_to_coords p = ((p - 1) div 3, (p - 1) mod 3)"
  using assms by (auto simp: linear_position_to_coords_def Let_def)

text \<open>
  C2: for every position \<open>p\<close> in \<open>[1,9]\<close> the conversion of all three variants returns
  \<open>((p-1) div 3, (p-1) mod 3)\<close>, both components lie in \<open>[0,2]\<close>, and the conversion maps
  the nine positions one-to-one onto the nine grid coordinates.
\<close>

theorem C2_coords_bijection:
  "(\<forall>p \<in> {1..9}.
      linear_position_to_coords p = ((p - 1) div 3, (p - 1) mod 3)
    \<and> get_coords p = ((p - 1) div 3, (p - 1) mod 3)
    \<and> fst (get_coords p) \<in> {0..2} \<and> snd (get_coords p) \<in> {0..2})
   \<and> bij_betw linear_position_to_coords {1..9} ({0..2} \<times> {0..2})
   \<and> bij_betw get_coords {1..9} ({0..2} \<times> {0..2})"
proof -
  have form: "linear_position_to_coords p = ((p - 1) div 3, (p - 1) mod 3)"
    if "p \<in> {1..9}" for p
    using that by (simp add: coords_in_range)
  have inj: "inj_on linear_position_to_coords {1..9}"
  proof (rule inj_onI)
    fix p q :: int
    assume p: "p \<in> {1..9}" and q: "q \<in> {1..9}"
      and eq: "linear_position_to_coords p = linear_position_to_coords q"
    from eq form[OF p] form[OF q]
    have "(p - 1) div 3 = (q - 1) div 3" "(p - 1) mod 3 = (q - 1) mod 3"
      by simp_all
    then have "p - 1 = q - 1"
      by (metis mult_div_mod_eq)
    then show "p = q" by simp
  qed
  have img: "linear_position_to_coords ` {1..9} = {0..2} \<times> {0..2}"
  proof (rule set_eqI)
    fix rc :: "int \<times> int"
    obtain r c where rc: "rc = (r, c)" by (cases rc)
    show "rc \<in> linear_position_to_coords ` {1..9} \<longleftrightarrow> rc \<in> {0..2} \<times> {0..2}"
    proof
      assume "rc \<in> linear_position_to_coords ` {1..9}"
      then obtain p where p: "p \<in> {1..9}" and "rc = linear_position_to_coords p"
        by blast
      with form[OF p] have "r = (p - 1) div 3" "c = (p - 1) mod 3"
        using rc by simp_all
      with p show "rc \<in> {0..2} \<times> {0..2}"
        unfolding rc by auto
    next
      assume "rc \<in> {0..2} \<times> {0..2}"
      then have r: "0 \<le> r" "r \<le> 2" and c: "0 \<le> c" "c \<le> 2"
        unfolding rc by auto
      let ?p = "3 * r + c + 1"
      have p: "?p \<in> {1..9}" using r c by auto
      have "(?p - 1) div 3 = r" "(?p - 1) mod 3 = c"
        using r c by auto
      with form[OF p] have "linear_position_to_coords ?p = rc"
        unfolding rc by simp
      with p show "rc \<in> linear_position_to_coords ` {1..9}"
        by blast
    qed
  qed
  have bij: "bij_betw linear_position_to_coords {1..9} ({0..2} \<times> {0..2})"
    using inj img by (simp add: bij_betw_def)
  have same: "get_coords = linear_position_to_coords"
    by (rule ext) (rule get_coords_eq)
  have rng: "fst (get_coords p) \<in> {0..2} \<and> snd (get_coords p) \<in> {0..2}"
    if "p \<in> {1..9}" for p
    using that form[OF that] by (auto simp: same)
  show ?thesis
    using form rng bij by (simp add: same)
qed

theorem C2_coords_bijection_witness:
  "(5::int) \<in> {1..9} \<and> get_coords 5 = (1, 1) \<and> linear_position_to_coords 5 = (1, 1)"
  using C2_coords_bijection by (simp add: get_coords_def linear_position_to_coords_def)

subsection \<open>Player rotation\<close>

text \<open>
  C6: for every rotation state, \<^verbatim>\<open>Players.switch\<close> flips the current-player flag and
  returns the identity that \<^verbatim>\<open>current()\<close> then returns; switching twice gives back the
  original flag and with it the original \<^verbatim>\<open>current()\<close> identity.
\<close>

theorem C6_switch_flips:
  "fst (switch cur) = (\<not> cur)
   \<and> snd (switch cur) = current (fst (switch cur))
   \<and> snd (switch cur) \<noteq> current cur
   \<and> fst (switch (fst (switch cur))) = cur
   \<and> snd (switch (fst (switch cur))) = current cur"
  by (cases cur) (simp_all add: switch_def current_def players_tuple_def)

subsection \<open>Win detection\<close>

lemma upt3: "{0..<3::nat} = {0, 1, 2}"
  by auto

lemma list3_shape:
  assumes "length xs = 3"
  obtains a b c where "xs = [a, b, c]"
proof -
  from assms obtain a xs1 where 1: "xs = a # xs1" "length xs1 = 2"
    by (cases xs) auto
  then obtain b xs2 where 2: "xs1 = b # xs2" "length xs2 = 1"
    by (cases xs1) auto
  then obtain c where 3: "xs2 = [c]"
    by (cases xs2) auto
  from 1 2 3 that show thesis by simp
qed

lemma wf_grid_shape:
  assumes "wf_grid g"
  obtains a b c d e f h i j where "g = [[a, b, c], [d, e, f], [h, i, j]]"
proof -
  from assms have len: "length g = 3" and rows: "\<forall>row \<in> set g. length row = 3"
    by (simp_all add: wf_grid_def)
  from len obtain r0 r1 r2 where g: "g = [r0, r1, r2]"
    by (rule list3_shape)
  from rows g have "length r0 = 3" "length r1 = 3" "length r2 = 3"
    by simp_all
  then obtain a b c d e f h i j where "r0 = [a, b, c]" "r1 = [d, e, f]" "r2 = [h, i, j]"
    by (metis list3_shape)
  with g that show thesis by simp
qed

lemma grid_get_lit:
  "grid_get [[a, b, c], [d, e, f], [h, i, j]] 0 0 = Inr a"
  "grid_get [[a, b, c], [d, e, f], [h, i, j]] 0 1 = Inr b"
  "grid_get [[a, b, c], [d, e, f], [h, i, j]] 0 2 = Inr c"
  "grid_get [[a, b, c], [d, e, f], [h, i, j]] 1 0 = Inr d"
  "grid_get [[a, b, c], [d, e, f], [h, i, j]] 1 1 = Inr e"
  "grid_get [[a, b, c], [d, e, f], [h, i, j]] 1 2 = Inr f"
  "grid_get [[a, b, c], [d, e, f], [h, i, j]] 2 0 = Inr h"
  "grid_get [[a, b, c], [d, e, f], [h, i, j]] 2 1 = Inr i"
  "grid_get [[a, b, c], [d, e, f], [h, i, j]] 2 2 = Inr j"
  by (simp_all add: grid_get_def py_get_def py_index_def)

lemma row_win_lit:
  "row_win [[a, b, c], [d, e, f], [h, i, j]] p \<longleftrightarrow>
     (a = p \<and> b = p \<and> c = p) \<or> (d = p \<and> e = p \<and> f = p) \<or> (h = p \<and> i = p \<and> j = p)"
  by (simp add: row_win_def upt3)

lemma col_win_lit:
  "col_win [[a, b, c], [d, e, f], [h, i, j]] p \<longleftrightarrow>
     (a = p \<and> d = p \<and> h = p) \<or> (b = p \<and> e = p \<and> i = p) \<or> (c = p \<and> f = p \<and> j = p)"
  by (simp add: col_win_def upt3)

lemma diag_win_lit:
  "diag_win [[a, b, c], [d, e, f], [h, i, j]] p \<longleftrightarrow>
     (a = p \<and> e = p \<and> j = p) \<or> (c = p \<and> e = p \<and> h = p)"
  by (auto simp add: diag_win_def upt3)

lemma diags_check_lit:
  "diags_check [[a, b, c], [d, e, f], [h, i, j]] p =
     Inr (diag_win [[a, b, c], [d, e, f], [h, i, j]] p)"
  by (auto simp add: diags_check_def grid_get_lit bind_err_def diag_win_lit)

lemma column_match_lit:
  "column_match [[a, b, c], [d, e, f], [h, i, j]] p 0 range3 = Inr (a = p \<and> d = p \<and> h = p)"
  "column_match [[a, b, c], [d, e, f], [h, i, j]] p 1 range3 = Inr (b = p \<and> e = p \<and> i = p)"
  "column_match [[a, b, c], [d, e, f], [h, i, j]] p 2 range3 = Inr (c = p \<and> f = p \<and> j = p)"
  by (simp_all add: range3_def grid_get_lit bind_err_def)

lemma check_rows_lit:
  "board gs = [[a, b, c], [d, e, f], [h, i, j]] \<Longrightarrow>
   check_rows gs p = Inr (row_win (board gs) (Some p))"
  by (auto simp add: check_rows_def row_win_lit Let_def)

lemma check_cols_lit:
  "board gs = [[a, b, c], [d, e, f], [h, i, j]] \<Longrightarrow>
   check_cols gs p = Inr (col_win (board gs) (Some p))"
  unfolding check_cols_def
  by (subst range3_def) (auto simp add: column_match_lit bind_err_def col_win_lit)

lemma Board_check_rows_lit:
  "grid b = [[a, b0, c], [d, e, f], [h, i, j]] \<Longrightarrow>
   Board_check_rows b p = row_win (grid b) p"
  by (auto simp add: Board_check_rows_def row_win_lit Let_def)

lemma Board_check_rows_npc_lit:
  "grid b = [[a, b0, c], [d, e, f], [h, i, j]] \<Longrightarrow>
   Board_check_rows_npc b p = row_win (grid b) p"
  by (auto simp add: Board_check_rows_npc_def row_win_lit numeral_3_eq_3)

lemma Board_check_cols_lit:
  "grid b = [[a, b0, c], [d, e, f], [h, i, j]] \<Longrightarrow>
   Board_check_cols b p = Inr (col_win (grid b) p)"
  unfolding Board_check_cols_def col_win_lit
  by (subst range3_def) (auto simp add: column_match_lit bind_err_def col_win_lit)

lemma check_diags_wf:
  assumes "wf_grid (board gs)"
  shows "check_diags gs player = Inr (diag_win (board gs) (Some player))"
proof -
  from assms obtain a b c d e f h i j
    where g: "board gs = [[a, b, c], [d, e, f], [h, i, j]]"
    by (rule wf_grid_shape)
  show ?thesis
    unfolding check_diags_def g by (rule diags_check_lit)
qed

lemma chicken_dinner_wf:
  assumes "wf_grid (board gs)"
  shows "chicken_dinner gs player = Inr (has_won (board gs) (Some player))"
proof -
  from assms obtain a b c d e f h i j
    where g: "board gs = [[a, b, c], [d, e, f], [h, i, j]]"
    by (rule wf_grid_shape)
  show ?thesis
    unfolding chicken_dinner_def has_won_def
    by (simp add: check_rows_lit[OF g] check_cols_lit[OF g] check_diags_wf[OF assms]
        or_else_def bind_err_def)
qed

lemma Board_checks_wf:
  assumes "wf_grid (grid b)"
  shows "Board_check_rows b p = row_win (grid b) p"
    and "Board_check_rows_npc b p = row_win (grid b) p"
    and "Board_check_cols b p = Inr (col_win (grid b) p)"
    and "Board_check_diags b p = Inr (diag_win (grid b) p)"
proof -
  from assms obtain a b0 c d e f h i j where g: "grid b = [[a, b0, c], [d, e, f], [h, i, j]]"
    by (rule wf_grid_shape)
  show "Board_check_rows b p = row_win (grid b) p"
    using g by (rule Board_check_rows_lit)
  show "Board_check_rows_npc b p = row_win (grid b) p"
    using g by (rule Board_check_rows_npc_lit)
  show "Board_check_cols b p = Inr (col_win (grid b) p)"
    using g by (rule Board_check_cols_lit)
  show "Board_check_diags b p = Inr (diag_win (grid b) p)"
    unfolding Board_check_diags_def g by (rule diags_check_lit)
qed

lemma Board_is_winner_wf:
  assumes "wf_grid (grid b)"
  shows "Board_is_winner b p = (if has_won (grid b) p then Inl WinnerWinnerChickenDinner else Inr ())"
    and "Board_is_winner_npc b p = (if has_won (grid b) p then Inl WinnerWinnerChickenDinner else Inr ())"
  by (simp_all add: Board_is_winner_def Board_is_winner_npc_def Board_checks_wf[OF assms]
      or_else_def bind_err_def has_won_def)

text \<open>
  C1: on every 3 by 3 grid and for every player, the win check of each variant
  (\<^verbatim>\<open>chicken_dinner\<close> returning \<^verbatim>\<open>True\<close>, \<^verbatim>\<open>Board.is_winner\<close> raising
  \<^verbatim>\<open>WinnerWinnerChickenDinner\<close>) reports a win if and only if some full row, some full
  column or one of the two full diagonals consists of that player's mark; it raises nothing
  else.
\<close>

theorem C1_win_check:
  assumes "wf_grid (board gs)" and "wf_grid (grid b)"
  shows "chicken_dinner gs player = Inr (has_won (board gs) (Some player))
       \<and> Board_is_winner b p =
           (if has_won (grid b) p then Inl WinnerWinnerChickenDinner else Inr ())
       \<and> Board_is_winner_npc b p =
           (if has_won (grid b) p then Inl WinnerWinnerChickenDinner else Inr ())"
  using chicken_dinner_wf[OF assms(1)] Board_is_winner_wf[OF assms(2)]
  by simp

theorem C1_win_check_witness:
  "wf_grid (board \<lparr> board = [[Some True, None, None],
                              [None, Some True, Some False],
                              [Some False, None, Some True]], global_turn = 4 \<rparr>)
   \<and> wf_grid (grid \<lparr> grid = [[PLAYER, COMPUTER, EMPTY],
                              [PLAYER, COMPUTER, EMPTY],
                              [EMPTY, COMPUTER, PLAYER]], turn = 5 \<rparr>)
   \<and> chicken_dinner \<lparr> board = [[Some True, None, None],
                                [None, Some True, Some False],
                                [Some False, None, Some True]], global_turn = 4 \<rparr> True
        = Inr True
   \<and> Board_is_winner \<lparr> grid = [[PLAYER, COMPUTER, EMPTY],
                                [PLAYER, COMPUTER, EMPTY],
                                [EMPTY, COMPUTER, PLAYER]], turn = 5 \<rparr> COMPUTER
        = Inl WinnerWinnerChickenDinner
   \<and> Board_is_winner_npc \<lparr> grid = [[PLAYER, COMPUTER, EMPTY],
                                    [PLAYER, COMPUTER, EMPTY],
                                    [EMPTY, COMPUTER, PLAYER]], turn = 5 \<rparr> PLAYER
        = Inr ()"
proof -
  let ?gs = "\<lparr> board = [[Some True, None, None],
                       [None, Some True, Some False],
                       [Some False, None, Some True]], global_turn = 4 \<rparr>"
  let ?b = "\<lparr> grid = [[PLAYER, COMPUTER, EMPTY],
                     [PLAYER, COMPUTER, EMPTY],
                     [EMPTY, COMPUTER, PLAYER]], turn = 5 \<rparr>"
  have wf1: "wf_grid (board ?gs)" and wf2: "wf_grid (grid ?b)"
    by (simp_all add: wf_grid_def)
  have "chicken_dinner ?gs True = Inr True"
    using C1_win_check[OF wf1 wf2, of True PLAYER]
    by (simp add: has_won_def row_win_lit col_win_lit diag_win_lit)
  moreover have "Board_is_winner ?b COMPUTER = Inl WinnerWinnerChickenDinner"
    using C1_win_check[OF wf1 wf2, of True COMPUTER]
    by (simp add: has_won_def row_win_lit col_win_lit diag_win_lit)
  moreover have "Board_is_winner_npc ?b PLAYER = Inr ()"
    using C1_win_check[OF wf1 wf2, of True PLAYER]
    by (simp add: has_won_def row_win_lit col_win_lit diag_win_lit)
  ultimately show ?thesis
    using wf1 wf2 by simp
qed

text \<open>
  C7: on every 3 by 3 grid and for every player, the diagonal check with its test of the
  centre cell first (\<^verbatim>\<open>check_diags\<close>, \<^verbatim>\<open>Board._check_diags\<close>) returns what the plain check
  \<open>diag_win\<close> says: true exactly when one of the two full diagonals consists of the
  player's mark. The early return on the centre cell changes no result.
\<close>

theorem C7_diags_prefilter:
  assumes "wf_grid (board gs)" and "wf_grid (grid b)"
  shows "check_diags gs player = Inr (diag_win (board gs) (Some player))
       \<and> Board_check_diags b p = Inr (diag_win (grid b) p)"
  using check_diags_wf[OF assms(1)] Board_checks_wf(4)[OF assms(2)]
  by simp

theorem C7_diags_prefilter_witness:
  "wf_grid (board \<lparr> board = [[Some False, None, Some True],
                              [None, Some False, None],
                              [Some True, None, Some True]], global_turn = 5 \<rparr>)
   \<and> wf_grid (grid \<lparr> grid = [[EMPTY, EMPTY, PLAYER],
                              [EMPTY, PLAYER, EMPTY],
                              [PLAYER, EMPTY, EMPTY]], turn = 3 \<rparr>)
   \<and> check_diags \<lparr> board = [[Some False, None, Some True],
                             [None, Some False, None],
                             [Some True, None, Some True]], global_turn = 5 \<rparr> True
        = Inr False
   \<and> Board_check_diags \<lparr> grid = [[EMPTY, EMPTY, PLAYER],
                                  [EMPTY, PLAYER, EMPTY],
                                  [PLAYER, EMPTY, EMPTY]], turn = 3 \<rparr> PLAYER = Inr True"
proof -
  let ?gs = "\<lparr> board = [[Some False, None, Some True],
                       [None, Some False, None],
                       [Some True, None, Some True]], global_turn = 5 \<rparr>"
  let ?b = "\<lparr> grid = [[EMPTY, EMPTY, PLAYER],
                     [EMPTY, PLAYER, EMPTY],
                     [PLAYER, EMPTY, EMPTY]], turn = 3 \<rparr>"
  have wf1: "wf_grid (board ?gs)" and wf2: "wf_grid (grid ?b)"
    by (simp_all add: wf_grid_def)
  from C7_diags_prefilter[OF wf1 wf2, of True PLAYER] wf1 wf2 show ?thesis
    by (simp add: diag_win_lit)
qed

subsection \<open>Placing a mark and asking whether a cell is taken\<close>

lemma pos_cases:
  assumes "p \<in> {1..9::int}"
  shows "p = 1 \<or> p = 2 \<or> p = 3 \<or> p = 4 \<or> p = 5 \<or> p = 6 \<or> p = 7 \<or> p = 8 \<or> p = 9"
  using assms by auto

lemma get_coords_lit:
  "get_coords 1 = (0, 0)" "get_coords 2 = (0, 1)" "get_coords 3 = (0, 2)"
  "get_coords 4 = (1, 0)" "get_coords 5 = (1, 1)" "get_coords 6 = (1, 2)"
  "get_coords 7 = (2, 0)" "get_coords 8 = (2, 1)" "get_coords 9 = (2, 2)"
  by (simp_all add: get_coords_def)

text \<open>In-range reads and writes on a well-formed grid.\<close>

lemma py_index_in_range:
  "0 \<le> i \<Longrightarrow> i < int (length xs) \<Longrightarrow> py_index xs i = Inr (nat i)"
  by (simp add: py_index_def)

lemma grid_get_in_range:
  assumes "wf_grid g" "0 \<le> r" "r \<le> 2" "0 \<le> c" "c \<le> 2"
  shows "grid_get g r c = Inr (g ! nat r ! nat c)"
proof -
  from assms(1) have len: "length g = 3" and rows: "\<forall>row \<in> set g. length row = 3"
    by (simp_all add: wf_grid_def)
  from len assms have "g ! nat r \<in> set g" by simp
  with rows have "length (g ! nat r) = 3" by blast
  with len assms show ?thesis
    by (simp add: grid_get_def py_get_def py_index_in_range)
qed

lemma grid_set_in_range:
  assumes "wf_grid g" "0 \<le> r" "r \<le> 2" "0 \<le> c" "c \<le> 2"
  shows "grid_set g r c v = Inr (g[nat r := (g ! nat r)[nat c := v]])"
proof -
  from assms(1) have len: "length g = 3" and rows: "\<forall>row \<in> set g. length row = 3"
    by (simp_all add: wf_grid_def)
  from len assms have "g ! nat r \<in> set g" by simp
  with rows have "length (g ! nat r) = 3" by blast
  with len assms show ?thesis
    by (simp add: grid_set_def py_get_def py_set_def py_index_in_range)
qed

lemma wf_grid_update:
  assumes "wf_grid g"
  shows "wf_grid (g[r := (g ! r)[c := v]])"
proof -
  from assms have len: "length g = 3" and rows: "\<forall>row \<in> set g. length row = 3"
    by (simp_all add: wf_grid_def)
  have "length row = 3" if "row \<in> set (g[r := (g ! r)[c := v]])" for row
  proof -
    from that have "row = (g ! r)[c := v] \<and> r < length g \<or> row \<in> set g"
      by (metis in_set_conv_nth length_list_update nth_list_update_eq nth_list_update_neq nth_mem)
    with rows show ?thesis by auto
  qed
  with len show ?thesis by (simp add: wf_grid_def)
qed

lemma coords_range:
  assumes "p \<in> {1..9}"
  shows "0 \<le> fst (get_coords p)" "fst (get_coords p) \<le> 2"
        "0 \<le> snd (get_coords p)" "snd (get_coords p) \<le> 2"
  using pos_cases[OF assms] by (auto simp: get_coords_lit)

lemma Board_add_wf:
  assumes "wf_grid (grid b)" "p \<in> {1..9}"
  shows "Board_add b p player =
           Inr (b\<lparr>grid := (grid b)[nat (fst (get_coords p)) :=
                   (grid b ! nat (fst (get_coords p)))[nat (snd (get_coords p)) := player]]\<rparr>)"
  using coords_range[OF assms(2)]
  by (simp add: Board_add_def split_beta grid_set_in_range[OF assms(1)] bind_err_def)

lemma Board_is_taken_wf:
  assumes "wf_grid (grid b)" "p \<in> {1..9}"
  shows "Board_is_taken b p =
           Inr (grid b ! nat (fst (get_coords p)) ! nat (snd (get_coords p)) \<noteq> EMPTY)"
  using coords_range[OF assms(2)]
  by (simp add: Board_is_taken_def split_beta grid_get_in_range[OF assms(1)] bind_err_def)

lemma add_to_board_wf:
  assumes "wf_grid (board gs)" "p \<in> {1..9}"
  shows "add_to_board gs (linear_position_to_coords p) player =
           Inr (gs\<lparr>board := (board gs)[nat (fst (get_coords p)) :=
                   (board gs ! nat (fst (get_coords p)))[nat (snd (get_coords p)) := Some player]]\<rparr>)"
  using coords_range[OF assms(2)]
  by (simp add: add_to_board_def split_beta grid_set_in_range[OF assms(1)] bind_err_def
      get_coords_eq[symmetric])

lemma is_taken_wf:
  assumes "wf_grid (board gs)" "p \<in> {1..9}"
  shows "is_taken gs (linear_position_to_coords p) =
           Inr (board gs ! nat (fst (get_coords p)) ! nat (snd (get_coords p)) \<noteq> None)"
  using coords_range[OF assms(2)]
  by (simp add: is_taken_def split_beta grid_get_in_range[OF assms(1)] bind_err_def
      get_coords_eq[symmetric])

lemma nth_grid_update:
  assumes "wf_grid g" "r < 3" "c < 3" "r' < 3" "c' < 3"
  shows "g[r := (g ! r)[c := v]] ! r' ! c' = (if r' = r \<and> c' = c then v else g ! r' ! c')"
proof -
  from assms(1) have len: "length g = 3" and rows: "\<forall>row \<in> set g. length row = 3"
    by (simp_all add: wf_grid_def)
  from len assms(2) have "g ! r \<in> set g" by simp
  with rows have "length (g ! r) = 3" by blast
  with len assms show ?thesis
    by (auto simp: nth_list_update)
qed

lemma wf_init: "wf_grid (grid Board_init)" "wf_grid (board globals_init)"
  by (simp_all add: wf_grid_def Board_init_def globals_init_def numeral_3_eq_3)

lemma init_cells:
  "r < 3 \<Longrightarrow> c < 3 \<Longrightarrow> grid Board_init ! r ! c = EMPTY"
  "r < 3 \<Longrightarrow> c < 3 \<Longrightarrow> board globals_init ! r ! c = None"
  by (simp_all add: Board_init_def globals_init_def)

text \<open>
  C8: for every position \<open>p\<close> in \<open>[1,9]\<close> and every player (a \<open>bool\<close> in functional.py, a
  member of \<^verbatim>\<open>Players._players\<close> in the class variants), placing the player at \<open>p\<close> on a
  3 by 3 board succeeds and the query whether \<open>p\<close> is taken then returns true; on the
  freshly constructed board the query returns false for every such \<open>p\<close>.
\<close>

theorem C8_place_then_taken:
  assumes "wf_grid (board gs)" and "wf_grid (grid b)" and "p \<in> {1..9}"
    and "player \<in> set players_tuple"
  shows "(\<exists>gs'. add_to_board gs (linear_position_to_coords p) mark = Inr gs'
               \<and> is_taken gs' (linear_position_to_coords p) = Inr True)
       \<and> (\<exists>b'. Board_add b p player = Inr b' \<and> Board_is_taken b' p = Inr True)
       \<and> is_taken globals_init (linear_position_to_coords p) = Inr False
       \<and> Board_is_taken Board_init p = Inr False"
proof -
  let ?r = "nat (fst (get_coords p))" and ?c = "nat (snd (get_coords p))"
  have rc: "?r < 3" "?c < 3"
    using coords_range[OF assms(3)] by simp_all
  let ?g1 = "(board gs)[?r := (board gs ! ?r)[?c := Some mark]]"
  let ?g2 = "(grid b)[?r := (grid b ! ?r)[?c := player]]"
  have wf1: "wf_grid (board (gs\<lparr>board := ?g1\<rparr>))"
    using wf_grid_update[OF assms(1)] by simp
  have wf2: "wf_grid (grid (b\<lparr>grid := ?g2\<rparr>))"
    using wf_grid_update[OF assms(2)] by simp
  have ne: "player \<noteq> EMPTY"
    using assms(4) by (auto simp: players_tuple_def)
  have "is_taken (gs\<lparr>board := ?g1\<rparr>) (linear_position_to_coords p) = Inr True"
    using is_taken_wf[OF wf1 assms(3)] nth_grid_update[OF assms(1) rc rc] by simp
  moreover have "Board_is_taken (b\<lparr>grid := ?g2\<rparr>) p = Inr True"
    using Board_is_taken_wf[OF wf2 assms(3)] nth_grid_update[OF assms(2) rc rc] ne by simp
  moreover have "is_taken globals_init (linear_position_to_coords p) = Inr False"
    using is_taken_wf[OF wf_init(2) assms(3)] init_cells(2)[OF rc] by simp
  moreover have "Board_is_taken Board_init p = Inr False"
    using Board_is_taken_wf[OF wf_init(1) assms(3)] init_cells(1)[OF rc] by simp
  ultimately show ?thesis
    using add_to_board_wf[OF assms(1,3)] Board_add_wf[OF assms(2,3)] by simp
qed

theorem C8_place_then_taken_witness:
  "wf_grid (board globals_init) \<and> wf_grid (grid Board_init) \<and> (5::int) \<in> {1..9}
   \<and> PLAYER \<in> set players_tuple
   \<and> (\<exists>gs'. add_to_board globals_init (linear_position_to_coords 5) False = Inr gs'
             \<and> is_taken gs' (linear_position_to_coords 5) = Inr True)
   \<and> (\<exists>b'. Board_add Board_init 5 PLAYER = Inr b' \<and> Board_is_taken b' 5 = Inr True)
   \<and> Board_is_taken Board_init 5 = Inr False"
proof -
  have pos: "(5::int) \<in> {1..9}" by simp
  have pl: "PLAYER \<in> set players_tuple" by (simp add: players_tuple_def)
  from C8_place_then_taken[OF wf_init(2) wf_init(1) pos pl, of False] wf_init pos pl
  show ?thesis by simp
qed


lemma py_index_len3:
  assumes "length xs = 3"
  shows "py_index xs i = (if -3 \<le> i \<and> i < 3 then Inr (nat (i mod 3)) else Inl IndexError)"
proof (cases "i < 0")
  case True
  then have "-3 \<le> i \<Longrightarrow> i mod 3 = 3 + i"
    by presburger
  with True assms show ?thesis
    by (auto simp: py_index_def)
next
  case False
  then have "i < 3 \<Longrightarrow> i mod 3 = i" by simp
  with False assms show ?thesis
    by (auto simp: py_index_def)
qed

lemma grid_get_wf:
  assumes "wf_grid g"
  shows "grid_get g r c =
           (if -3 \<le> r \<and> r < 3 \<and> -3 \<le> c \<and> c < 3
            then Inr (g ! nat (r mod 3) ! nat (c mod 3)) else Inl IndexError)"
proof -
  from assms have len: "length g = 3" and rows: "\<forall>row \<in> set g. length row = 3"
    by (simp_all add: wf_grid_def)
  show ?thesis
  proof (cases "-3 \<le> r \<and> r < 3")
    case True
    then have "nat (r mod 3) < length g" using len by simp
    then have "g ! nat (r mod 3) \<in> set g" by simp
    with rows have "length (g ! nat (r mod 3)) = 3" by blast
    with True len show ?thesis
      by (simp add: grid_get_def py_get_def py_index_len3)
  next
    case False
    with len show ?thesis
      by (auto simp add: grid_get_def py_get_def py_index_len3)
  qed
qed

lemma coords_indexable:
  "(case get_coords p of (r, c) \<Rightarrow> -3 \<le> r \<and> r < 3 \<and> -3 \<le> c \<and> c < 3) \<longleftrightarrow> -2 \<le> p \<and> p \<le> 9"
  unfolding get_coords_def Let_def by (simp split: if_splits) presburger

lemma Board_is_taken_domain:
  assumes "wf_grid (grid b)"
  shows "if -2 \<le> p \<and> p \<le> 9 then \<exists>t. Board_is_taken b p = Inr t
         else Board_is_taken b p = Inl IndexError"
  using coords_indexable[of p]
  by (auto simp: Board_is_taken_def grid_get_wf[OF assms] bind_err_def split: prod.splits)

lemma is_taken_domain:
  assumes "wf_grid (board gs)"
  shows "if -2 \<le> p \<and> p \<le> 9 then \<exists>t. is_taken gs (linear_position_to_coords p) = Inr t
         else is_taken gs (linear_position_to_coords p) = Inl IndexError"
  using coords_indexable[of p]
  by (auto simp: is_taken_def grid_get_wf[OF assms] bind_err_def get_coords_eq[symmetric]
      split: prod.splits)

lemma coords_zero: "get_coords 0 = (-1, -1)" "linear_position_to_coords 0 = (-1, -1)"
  by (simp_all add: get_coords_def linear_position_to_coords_def Let_def)

text \<open>
  C10, as stated, fails: the query is not total over all integer positions. Position 10
  converts to row 3, and indexing the grid with 3 raises \<^verbatim>\<open>IndexError\<close>.
\<close>

theorem C10_is_taken_total_counterexample:
  "Board_is_taken Board_init 10 = Inl IndexError
   \<and> is_taken globals_init (linear_position_to_coords 10) = Inl IndexError"
  by (simp add: Board_is_taken_def is_taken_def get_coords_def linear_position_to_coords_def
      grid_get_wf[OF wf_init(1)] grid_get_wf[OF wf_init(2)] bind_err_def)

text \<open>
  C10, amended: the coordinate conversion returns for every integer, and for position 0 it
  returns \<open>(-1, -1)\<close>, so that the query at 0 reads the bottom-right cell through Python's
  negative indexing instead of failing. The query returns without raising exactly for the
  positions in \<open>[-2, 9]\<close>; for every other position it raises \<^verbatim>\<open>IndexError\<close>. The board
  has no check of its own on the position.
\<close>

theorem C10_positions_accepted:
  assumes "wf_grid (board gs)" and "wf_grid (grid b)"
  shows "get_coords 0 = (-1, -1) \<and> linear_position_to_coords 0 = (-1, -1)
       \<and> Board_is_taken b 0 = Inr (grid b ! 2 ! 2 \<noteq> EMPTY)
       \<and> is_taken gs (linear_position_to_coords 0) = Inr (board gs ! 2 ! 2 \<noteq> None)
       \<and> (if -2 \<le> p \<and> p \<le> 9
          then (\<exists>t. Board_is_taken b p = Inr t)
             \<and> (\<exists>t. is_taken gs (linear_position_to_coords p) = Inr t)
          else Board_is_taken b p = Inl IndexError
             \<and> is_taken gs (linear_position_to_coords p) = Inl IndexError)"
proof -
  have "Board_is_taken b 0 = Inr (grid b ! 2 ! 2 \<noteq> EMPTY)"
    by (simp add: Board_is_taken_def coords_zero grid_get_wf[OF assms(2)] bind_err_def)
  moreover have "is_taken gs (linear_position_to_coords 0) = Inr (board gs ! 2 ! 2 \<noteq> None)"
    by (simp add: is_taken_def coords_zero grid_get_wf[OF assms(1)] bind_err_def)
  ultimately show ?thesis
    using Board_is_taken_domain[OF assms(2), of p] is_taken_domain[OF assms(1), of p]
    by (simp add: coords_zero split: if_splits)
qed

theorem C10_positions_accepted_witness:
  "wf_grid (board globals_init) \<and> wf_grid (grid Board_init)
   \<and> Board_is_taken Board_init 0 = Inr False
   \<and> (\<exists>t. Board_is_taken Board_init (- 2) = Inr t)
   \<and> (\<exists>t. is_taken globals_init (linear_position_to_coords (- 2)) = Inr t)"
proof -
  have cell: "grid Board_init ! 2 ! 2 = EMPTY"
    by (rule init_cells(1)) simp_all
  from C10_positions_accepted[OF wf_init(2) wf_init(1), of "- 2"] wf_init cell
  show ?thesis by simp
qed

text \<open>
  C9: for every 3 by 3 board, every position \<open>p\<close> in \<open>[1,9]\<close> and every player, placing
  (\<^verbatim>\<open>add_to_board\<close>, \<^verbatim>\<open>Board.add\<close>) succeeds, sets the cell that \<open>p\<close> converts to and leaves
  every other cell and the move counter as they were. Nothing is asked of the target cell:
  a mark already there is overwritten.
\<close>

theorem C9_place_frame:
  assumes "wf_grid (board gs)" and "wf_grid (grid b)" and "p \<in> {1..9}"
  shows "(\<exists>gs'. add_to_board gs (linear_position_to_coords p) mark = Inr gs'
            \<and> global_turn gs' = global_turn gs \<and> wf_grid (board gs')
            \<and> (\<forall>r \<in> {0..<3}. \<forall>c \<in> {0..<3}.
                 board gs' ! r ! c =
                   (if (int r, int c) = linear_position_to_coords p then Some mark
                    else board gs ! r ! c)))
       \<and> (\<exists>b'. Board_add b p player = Inr b'
            \<and> turn b' = turn b \<and> wf_grid (grid b')
            \<and> (\<forall>r \<in> {0..<3}. \<forall>c \<in> {0..<3}.
                 grid b' ! r ! c =
                   (if (int r, int c) = get_coords p then player else grid b ! r ! c)))"
proof -
  let ?r = "nat (fst (get_coords p))" and ?c = "nat (snd (get_coords p))"
  have rc: "?r < 3" "?c < 3"
    using coords_range[OF assms(3)] by simp_all
  have same: "((int r, int c) = get_coords p) = (r = ?r \<and> c = ?c)" for r c
    using coords_range[OF assms(3)] by (cases "get_coords p") auto
  let ?g1 = "(board gs)[?r := (board gs ! ?r)[?c := Some mark]]"
  let ?g2 = "(grid b)[?r := (grid b ! ?r)[?c := player]]"
  have cells1: "?g1 ! r ! c =
      (if (int r, int c) = linear_position_to_coords p then Some mark else board gs ! r ! c)"
    if "r \<in> {0..<3}" "c \<in> {0..<3}" for r c
    using that nth_grid_update[OF assms(1) rc, of r c] same[of r c]
    by (simp add: get_coords_eq)
  have cells2: "?g2 ! r ! c =
      (if (int r, int c) = get_coords p then player else grid b ! r ! c)"
    if "r \<in> {0..<3}" "c \<in> {0..<3}" for r c
    using that nth_grid_update[OF assms(2) rc, of r c] same[of r c]
    by simp
  have 1: "\<exists>gs'. add_to_board gs (linear_position_to_coords p) mark = Inr gs'
            \<and> global_turn gs' = global_turn gs \<and> wf_grid (board gs')
            \<and> (\<forall>r \<in> {0..<3}. \<forall>c \<in> {0..<3}.
                 board gs' ! r ! c =
                   (if (int r, int c) = linear_position_to_coords p then Some mark
                    else board gs ! r ! c))"
    unfolding add_to_board_wf[OF assms(1,3)]
    using wf_grid_update[OF assms(1)] cells1 by simp
  have 2: "\<exists>b'. Board_add b p player = Inr b'
            \<and> turn b' = turn b \<and> wf_grid (grid b')
            \<and> (\<forall>r \<in> {0..<3}. \<forall>c \<in> {0..<3}.
                 grid b' ! r ! c =
                   (if (int r, int c) = get_coords p then player else grid b ! r ! c))"
    unfolding Board_add_wf[OF assms(2,3)]
    using wf_grid_update[OF assms(2)] cells2 by simp
  from 1 2 show ?thesis by blast
qed

theorem C9_place_frame_witness:
  "wf_grid (board \<lparr> board = [[Some True, None, None],
                              [None, Some False, None],
                              [None, None, None]], global_turn = 2 \<rparr>)
   \<and> wf_grid (grid \<lparr> grid = [[PLAYER, EMPTY, EMPTY],
                              [EMPTY, COMPUTER, EMPTY],
                              [EMPTY, EMPTY, EMPTY]], turn = 2 \<rparr>)
   \<and> (1::int) \<in> {1..9}
   \<and> (\<exists>b'. Board_add \<lparr> grid = [[PLAYER, EMPTY, EMPTY],
                                 [EMPTY, COMPUTER, EMPTY],
                                 [EMPTY, EMPTY, EMPTY]], turn = 2 \<rparr> 1 COMPUTER = Inr b'
          \<and> turn b' = 2 \<and> grid b' ! 0 ! 0 = COMPUTER \<and> grid b' ! 1 ! 1 = COMPUTER
          \<and> grid b' ! 2 ! 1 = EMPTY)"
proof -
  let ?gs = "\<lparr> board = [[Some True, None, None],
                       [None, Some False, None],
                       [None, None, None]], global_turn = 2 \<rparr>"
  let ?b = "\<lparr> grid = [[PLAYER, EMPTY, EMPTY],
                     [EMPTY, COMPUTER, EMPTY],
                     [EMPTY, EMPTY, EMPTY]], turn = 2 \<rparr>"
  have wf1: "wf_grid (board ?gs)" and wf2: "wf_grid (grid ?b)"
    by (simp_all add: wf_grid_def)
  have pos: "(1::int) \<in> {1..9}" by simp
  from C9_place_frame[OF wf1 wf2 pos, of False COMPUTER]
  obtain b' where b': "Board_add ?b 1 COMPUTER = Inr b'" "turn b' = turn ?b"
    and cells: "\<forall>r \<in> {0..<3}. \<forall>c \<in> {0..<3}.
                 grid b' ! r ! c =
                   (if (int r, int c) = get_coords 1 then COMPUTER else grid ?b ! r ! c)"
    by blast
  have "grid b' ! 0 ! 0 = COMPUTER" "grid b' ! 1 ! 1 = COMPUTER" "grid b' ! 2 ! 1 = EMPTY"
    using cells by (simp_all add: get_coords_lit)
  with b' wf1 wf2 pos show ?thesis
    by simp
qed

subsection \<open>Move sources\<close>

lemma casefold_char_nonempty: "casefold_char c \<noteq> []"
  by (simp add: casefold_char_def Let_def)

lemma code_point_eq: "code_point c = code_point d \<longleftrightarrow> c = d"
  by (simp add: code_point_def)

lemma casefold_char_q:
  "casefold_char c = [113] \<longleftrightarrow> c = CHR ''q'' \<or> c = CHR ''Q''"
proof -
  have q: "code_point CHR ''q'' = 113" and Q: "code_point CHR ''Q'' = 81"
    by (simp_all add: code_point_def)
  have "casefold_char c = [113] \<longleftrightarrow> code_point c = 113 \<or> code_point c = 81"
    by (auto simp: casefold_char_def Let_def)
  also have "\<dots> \<longleftrightarrow> c = CHR ''q'' \<or> c = CHR ''Q''"
    using code_point_eq[of c "CHR ''q''"] code_point_eq[of c "CHR ''Q''"]
    by (simp only: q Q)
  finally show ?thesis .
qed

lemma casefold_q:
  "casefold s = map code_point ''q'' \<longleftrightarrow> s = ''q'' \<or> s = ''Q''"
proof (cases s)
  case Nil
  then show ?thesis by (simp add: casefold_def)
next
  case (Cons c cs)
  show ?thesis
  proof (cases cs)
    case Nil
    with Cons casefold_char_q[of c] show ?thesis
      by (simp add: casefold_def code_point_def)
  next
    case (Cons d ds)
    have "length (casefold_char c) \<ge> 1" "length (casefold_char d) \<ge> 1"
      using casefold_char_nonempty by (simp_all add: Suc_leI)
    then have "length (casefold s) \<ge> 2"
      using \<open>s = c # cs\<close> Cons by (simp add: casefold_def)
    then have "casefold s \<noteq> map code_point ''q''"
      by auto
    with \<open>s = c # cs\<close> Cons show ?thesis by simp
  qed
qed

lemma computer_loop_result:
  "computer_loop b l xs = Inr (Some loc) \<Longrightarrow>
     loc \<in> set (l # xs) \<and> Board_is_taken b loc = Inr False"
proof (induction xs arbitrary: l)
  case Nil
  then show ?case
    by (cases "Board_is_taken b l") (auto simp: bind_err_def split: if_splits)
next
  case (Cons x xs)
  show ?case
  proof (cases "Board_is_taken b l")
    case (Inl e)
    with Cons.prems show ?thesis by (simp add: bind_err_def)
  next
    case (Inr taken)
    show ?thesis
    proof (cases taken)
      case True
      with Inr Cons.prems have "computer_loop b x xs = Inr (Some loc)"
        by (simp add: bind_err_def)
      from Cons.IH[OF this] show ?thesis by simp
    next
      case False
      with Inr Cons.prems show ?thesis by (simp add: bind_err_def)
    qed
  qed
qed

lemma computer_loop_returns:
  assumes "\<forall>x \<in> set (l # xs). \<exists>t. Board_is_taken b x = Inr t"
    and "\<exists>x \<in> set (l # xs). Board_is_taken b x = Inr False"
  shows "\<exists>loc. computer_loop b l xs = Inr (Some loc)"
  using assms
proof (induction xs arbitrary: l)
  case Nil
  then show ?case by (auto simp: bind_err_def)
next
  case (Cons x xs)
  from Cons.prems(1) obtain t where t: "Board_is_taken b l = Inr t" by auto
  show ?case
  proof (cases t)
    case True
    with t Cons.prems have "\<exists>loc. computer_loop b x xs = Inr (Some loc)"
      by (intro Cons.IH) auto
    with t True show ?thesis by (simp add: bind_err_def)
  next
    case False
    with t show ?thesis by (simp add: bind_err_def)
  qed
qed

lemma get_location_returns:
  assumes "wf_grid (grid b)" and "\<forall>x \<in> set samples. x \<in> {1..9}"
    and "\<exists>x \<in> set samples. Board_is_taken b x = Inr False"
  shows "\<exists>location. get_location b COMPUTER samples input_string = Inr (Some location)"
proof (cases samples)
  case Nil
  with assms(3) show ?thesis by simp
next
  case (Cons l xs)
  have "\<forall>x \<in> set (l # xs). \<exists>t. Board_is_taken b x = Inr t"
    using assms(2) Cons Board_is_taken_wf[OF assms(1)] by auto
  moreover have "\<exists>x \<in> set (l # xs). Board_is_taken b x = Inr False"
    using assms(3) Cons by simp
  ultimately have "\<exists>location. computer_loop b l xs = Inr (Some location)"
    by (rule computer_loop_returns)
  with Cons show ?thesis by (simp add: get_location_def)
qed

text \<open>
  C5: for every board and every sequence of samples from \<open>[1,9]\<close> on which
  \<^verbatim>\<open>get_location\<close> returns for the \<^verbatim>\<open>COMPUTER\<close> player, the position returned lies in
  \<open>[1,9]\<close> and is not taken on that board. (By \<open>get_location_returns\<close> it does return as
  soon as one of the samples is an open position of a 3 by 3 board.)
\<close>

theorem C5_random_move_open:
  assumes "\<forall>x \<in> set samples. x \<in> {1..9}"
    and "get_location b COMPUTER samples input_string = Inr (Some location)"
  shows "location \<in> {1..9} \<and> Board_is_taken b location = Inr False"
proof (cases samples)
  case Nil
  with assms(2) show ?thesis by (simp add: get_location_def)
next
  case (Cons l xs)
  with assms(2) have "computer_loop b l xs = Inr (Some location)"
    by (simp add: get_location_def)
  from computer_loop_result[OF this] Cons assms(1) show ?thesis
    by auto
qed

theorem C5_random_move_open_witness:
  "set [1, 5, 9, 6, 2] \<subseteq> {1..9::int}
   \<and> get_location \<lparr> grid = [[PLAYER, COMPUTER, EMPTY],
                             [PLAYER, COMPUTER, EMPTY],
                             [EMPTY, COMPUTER, PLAYER]], turn = 5 \<rparr> COMPUTER [1, 5, 9, 6, 2] ''''
       = Inr (Some 6)
   \<and> (6::int) \<in> {1..9}
   \<and> Board_is_taken \<lparr> grid = [[PLAYER, COMPUTER, EMPTY],
                               [PLAYER, COMPUTER, EMPTY],
                               [EMPTY, COMPUTER, PLAYER]], turn = 5 \<rparr> 6 = Inr False"
proof -
  let ?b = "\<lparr> grid = [[PLAYER, COMPUTER, EMPTY],
                     [PLAYER, COMPUTER, EMPTY],
                     [EMPTY, COMPUTER, PLAYER]], turn = 5 \<rparr>"
  have h1: "\<forall>x \<in> set [1, 5, 9, 6, 2]. x \<in> {1..9::int}" by simp
  have h2: "get_location ?b COMPUTER [1, 5, 9, 6, 2] '''' = Inr (Some 6)"
    by (simp add: get_location_def Board_is_taken_def get_coords_def grid_get_def py_get_def
        py_index_def bind_err_def)
  from C5_random_move_open[OF h1 h2] h1 h2 show ?thesis
    by simp
qed

text \<open>
  C3, as stated, fails at the line \<^verbatim>\<open>-1\<close>: the minus sign is not a numeric character, so
  the line is rejected by the \<^verbatim>\<open>isnumeric\<close> test as invalid input before any bound is
  looked at.
\<close>

theorem C3_minus_one_counterexample:
  "get_user_input ''-1'' = Inl InvalidInput \<and> get_user_input ''-1'' \<noteq> Inl InputOutOfBounds
   \<and> get_user_input_as_int ''-1'' = Inl InvalidInput
   \<and> get_user_input_as_int ''-1'' \<noteq> Inl InputOutOfBounds"
  by (simp add: get_user_input_def get_user_input_as_int_def casefold_def casefold_char_def
      code_point_def isnumeric_def is_numeric_char_def is_decimal_char_def)

lemma get_user_input_as_int_eq: "get_user_input_as_int s = get_user_input s"
  unfolding get_user_input_as_int_def get_user_input_def
  by (rule if_cong[OF refl refl] if_cong[OF refl refl] arg_cong2[where f = bind_err] refl ext)+ auto

lemma casefold_q_simp:
  "casefold s = [code_point CHR ''q''] \<longleftrightarrow> s = ''q'' \<or> s = ''Q''"
  using casefold_q[of s] by simp

lemma q_not_numeric: "\<not> isnumeric ''q''" "\<not> isnumeric ''Q''"
  by (simp_all add: isnumeric_def is_numeric_char_def is_decimal_char_def code_point_def)

lemma get_user_input_exit: "get_user_input s = Inl UserExit \<longleftrightarrow> s = ''q'' \<or> s = ''Q''"
proof
  assume "s = ''q'' \<or> s = ''Q''"
  then show "get_user_input s = Inl UserExit"
    by (simp add: get_user_input_def casefold_q_simp)
next
  assume a: "get_user_input s = Inl UserExit"
  show "s = ''q'' \<or> s = ''Q''"
  proof (rule ccontr)
    assume "\<not> (s = ''q'' \<or> s = ''Q'')"
    then have "casefold s \<noteq> map code_point ''q''"
      by (simp only: casefold_q not_False_eq_True)
    with a show False
      by (auto simp: get_user_input_def bind_err_def int_of_numeric_def split: if_splits)
  qed
qed

lemma get_user_input_literals:
  "get_user_input ''5'' = Inr 5"
  "get_user_input ''0'' = Inl InputOutOfBounds"
  "get_user_input ''10'' = Inl InputOutOfBounds"
  "get_user_input ''-1'' = Inl InvalidInput"
  "get_user_input ''abc'' = Inl InvalidInput"
  "get_user_input '''' = Inl InvalidInput"
  by (simp_all add: get_user_input_def casefold_def casefold_char_def code_point_def
      isnumeric_def is_numeric_char_def is_decimal_char_def int_of_numeric_def
      int_max_str_digits_def bind_err_def)

text \<open>
  A line of more than \<open>int_max_str_digits\<close> decimal digits passes the \<^verbatim>\<open>isnumeric\<close> test and
  makes \<^verbatim>\<open>int\<close> raise \<^verbatim>\<open>ValueError\<close>, whatever its value: 4300 zeros followed by a 5.
\<close>

lemma get_user_input_digit_limit:
  "get_user_input (replicate 4300 CHR ''0'' @ ''5'') = Inl ValueError"
proof -
  let ?s = "replicate 4300 CHR ''0'' @ ''5''"
  have len: "length ?s = 4301" by simp
  have "?s \<noteq> ''q''" "?s \<noteq> ''Q''"
    using len by (metis length_Cons list.size(3) numeral_eq_one_iff One_nat_def
        semiring_norm(86))+
  then have nq: "casefold ?s \<noteq> map code_point ''q''"
    by (simp only: casefold_q not_False_eq_True simp_thms)
  have num: "isnumeric ?s"
    by (simp add: isnumeric_def is_numeric_char_def is_decimal_char_def code_point_def
        list_all_iff)
  have "int_of_numeric ?s = Inl ValueError"
    unfolding int_of_numeric_def int_max_str_digits_def using len by simp
  with nq num show ?thesis
    by (simp only: get_user_input_def bind_err_def if_False if_True simp_thms sum.case)
qed

text \<open>
  C3, amended: the input routine of every variant raises \<^verbatim>\<open>UserExit\<close> on a
  case-insensitive \<^verbatim>\<open>q\<close> (and on nothing else); returns the integer that \<^verbatim>\<open>int\<close> converts a
  numeric string to when that integer lies in \<open>[1,9]\<close>; raises the out-of-bounds error on
  \<^verbatim>\<open>0\<close> and \<^verbatim>\<open>10\<close>; and raises the invalid-input error on \<^verbatim>\<open>-1\<close>, \<^verbatim>\<open>abc\<close> and the empty
  line.
\<close>

theorem C3_input_classification:
  "(get_user_input s = Inl UserExit \<longleftrightarrow> s = ''q'' \<or> s = ''Q'')
   \<and> (isnumeric s \<and> int_of_numeric s = Inr n \<and> 1 \<le> n \<and> n \<le> 9 \<longrightarrow> get_user_input s = Inr n)
   \<and> get_user_input ''5'' = Inr 5
   \<and> get_user_input ''0'' = Inl InputOutOfBounds
   \<and> get_user_input ''10'' = Inl InputOutOfBounds
   \<and> get_user_input ''-1'' = Inl InvalidInput
   \<and> get_user_input ''abc'' = Inl InvalidInput
   \<and> get_user_input '''' = Inl InvalidInput
   \<and> get_user_input_as_int s = get_user_input s"
proof -
  have "get_user_input s = Inr n"
    if "isnumeric s" "int_of_numeric s = Inr n" "1 \<le> n" "n \<le> 9"
  proof -
    from that(1) q_not_numeric have "\<not> (s = ''q'' \<or> s = ''Q'')" by auto
    then have "casefold s \<noteq> map code_point ''q''"
      by (simp only: casefold_q not_False_eq_True)
    with that show ?thesis
      by (simp add: get_user_input_def bind_err_def)
  qed
  then show ?thesis
    using get_user_input_exit[of s] get_user_input_as_int_eq[of s]
    by (simp add: get_user_input_literals)
qed

theorem C3_input_classification_witness:
  "isnumeric ''7'' \<and> int_of_numeric ''7'' = Inr 7 \<and> get_user_input ''7'' = Inr 7
   \<and> get_user_input_as_int ''7'' = Inr 7"
proof -
  have h: "isnumeric ''7''" "int_of_numeric ''7'' = Inr 7"
    by (simp_all add: isnumeric_def is_numeric_char_def is_decimal_char_def code_point_def
        int_of_numeric_def int_max_str_digits_def)
  from C3_input_classification[of "''7''" 7] h show ?thesis
    by simp
qed

lemma get_user_input_range:
  assumes "get_user_input s = Inr n"
  shows "n \<in> {1..9}"
  using assms
  by (auto simp: get_user_input_def bind_err_def split: if_splits sum.splits)

subsection \<open>The move counter\<close>

lemma grid_set_wf:
  assumes "wf_grid g"
  shows "grid_set g r c v =
           (if -3 \<le> r \<and> r < 3 \<and> -3 \<le> c \<and> c < 3
            then Inr (g[nat (r mod 3) := (g ! nat (r mod 3))[nat (c mod 3) := v]])
            else Inl IndexError)"
proof -
  from assms have len: "length g = 3" and rows: "\<forall>row \<in> set g. length row = 3"
    by (simp_all add: wf_grid_def)
  show ?thesis
  proof (cases "-3 \<le> r \<and> r < 3")
    case True
    then have "nat (r mod 3) < length g" using len by simp
    then have "g ! nat (r mod 3) \<in> set g" by simp
    with rows have "length (g ! nat (r mod 3)) = 3" by blast
    with True len show ?thesis
      by (simp add: grid_set_def py_get_def py_set_def py_index_len3)
  next
    case False
    with len show ?thesis
      by (auto simp add: grid_set_def py_get_def py_index_len3)
  qed
qed

lemma occupied_lit:
  "occupied e [[a, b, c], [d, e', f], [h, i, j]] =
     (if a \<noteq> e then 1 else 0) + (if b \<noteq> e then 1 else 0) + (if c \<noteq> e then 1 else 0)
   + (if d \<noteq> e then 1 else 0) + (if e' \<noteq> e then 1 else 0) + (if f \<noteq> e then 1 else 0)
   + (if h \<noteq> e then 1 else 0) + (if i \<noteq> e then 1 else 0) + (if j \<noteq> e then 1 else 0)"
  by (simp add: occupied_def)

lemma less3_cases: "(n::nat) < 3 \<Longrightarrow> n = 0 \<or> n = 1 \<or> n = 2"
  by auto

lemma occupied_update:
  assumes "wf_grid g" "r < 3" "c < 3" "g ! r ! c = e" "v \<noteq> e"
  shows "occupied e (g[r := (g ! r)[c := v]]) = Suc (occupied e g)"
proof -
  from assms(1) obtain a0 b0 c0 d0 e0 f0 h0 i0 j0
    where g: "g = [[a0, b0, c0], [d0, e0, f0], [h0, i0, j0]]"
    by (rule wf_grid_shape)
  from less3_cases[OF assms(2)] less3_cases[OF assms(3)] assms(4,5) show ?thesis
    unfolding g by (elim disjE) (simp_all add: occupied_lit)
qed

lemma occupied_init:
  "occupied EMPTY (grid Board_init) = 0" "occupied None (board globals_init) = 0"
  by (simp_all add: occupied_def Board_init_def globals_init_def)

text \<open>What a successful query followed by a placement does, for any position.\<close>

lemma place_on_open:
  assumes wf: "wf_grid g"
    and open_cell: "grid_get g r c = Inr e"
    and v: "v \<noteq> e"
  shows "\<exists>g'. grid_set g r c v = Inr g' \<and> wf_grid g' \<and> occupied e g' = Suc (occupied e g)"
proof -
  from open_cell have rng: "-3 \<le> r \<and> r < 3 \<and> -3 \<le> c \<and> c < 3"
    and cell: "g ! nat (r mod 3) ! nat (c mod 3) = e"
    by (auto simp: grid_get_wf[OF wf] split: if_splits)
  have lt: "nat (r mod 3) < 3" "nat (c mod 3) < 3" by simp_all
  from rng have "grid_set g r c v =
      Inr (g[nat (r mod 3) := (g ! nat (r mod 3))[nat (c mod 3) := v]])"
    by (simp add: grid_set_wf[OF wf])
  with wf_grid_update[OF wf] occupied_update[OF wf lt cell v] show ?thesis
    by simp
qed

lemma switch_not_empty: "snd (switch cur) \<noteq> EMPTY"
  by (simp add: switch_def current_def players_tuple_def Let_def)

lemma get_user_input_errors:
  assumes "get_user_input s = Inl e"
  shows "e = UserExit \<or> e = InvalidInput \<or> e = InputOutOfBounds \<or> e = ValueError"
  using assms
  by (auto simp: get_user_input_def bind_err_def int_of_numeric_def split: if_splits)

lemma Board_add_open:
  assumes wf: "wf_grid (grid b)" and free: "Board_is_taken b location = Inr False"
    and pl: "player \<noteq> EMPTY"
  shows "\<exists>b'. Board_add b location player = Inr b' \<and> wf_grid (grid b')
           \<and> turn b' = turn b \<and> occupied EMPTY (grid b') = Suc (occupied EMPTY (grid b))"
proof -
  obtain r c where rc: "get_coords location = (r, c)" by (cases "get_coords location")
  from free rc have "grid_get (grid b) r c = Inr EMPTY"
    by (cases "grid_get (grid b) r c") (auto simp: Board_is_taken_def bind_err_def)
  from place_on_open[OF wf this pl] rc show ?thesis
    by (auto simp: Board_add_def bind_err_def)
qed

lemma Board_is_winner_raises:
  assumes "wf_grid (grid b)" and "Board_is_winner b player = Inl e"
  shows "e = WinnerWinnerChickenDinner"
  using assms(2) by (simp add: Board_is_winner_wf(1)[OF assms(1)] split: if_splits)

lemma Board_is_tie_effect:
  assumes "Board_is_tie b = (b', r)"
  shows "grid b' = grid b" and "turn b' = turn b + 1" and "r = Inl e \<Longrightarrow> e = YouAllLose"
  using assms by (auto simp: Board_is_tie_def Let_def split: if_splits)

lemma Board_inv_unchanged:
  assumes "Board_inv s" and "e \<noteq> WinnerWinnerChickenDinner"
  shows "if Board_main_except e = Won then Board_won_inv s else Board_inv s"
  using assms by (cases e) simp_all

lemma Board_main_step_inv:
  assumes inv: "Board_inv s" and step: "Board_main_step s input_string = (s', st)"
  shows "if st = Won then Board_won_inv s' else Board_inv s'"
proof (cases "get_user_input input_string")
  case (Inl e)
  with step have eq: "s' = s" "st = Board_main_except e"
    by (simp_all add: Board_main_step_def)
  from get_user_input_errors[OF Inl] have "e \<noteq> WinnerWinnerChickenDinner" by auto
  from Board_inv_unchanged[OF inv this] eq show ?thesis by simp
next
  case (Inr location)
  note loc = this
  from inv have wf: "wf_grid (grid (the_board s))"
    and cnt: "turn (the_board s) = int (occupied EMPTY (grid (the_board s)))"
    and pl: "current_player s \<noteq> EMPTY"
    by (simp_all add: Board_inv_def)
  show ?thesis
  proof (cases "Board_is_taken (the_board s) location")
    case (Inl e)
    with loc step have eq: "s' = s" "st = Board_main_except e"
      by (simp_all add: Board_main_step_def)
    from Inl have "e = IndexError"
      by (auto simp: Board_is_taken_def grid_get_wf[OF wf] bind_err_def
          split: prod.splits if_splits)
    then have "e \<noteq> WinnerWinnerChickenDinner" by simp
    from Board_inv_unchanged[OF inv this] eq show ?thesis by simp
  next
    case (Inr taken)
    show ?thesis
    proof (cases taken)
      case True
      with loc Inr step inv show ?thesis
        by (simp add: Board_main_step_def)
    next
      case False
      with Inr have free: "Board_is_taken (the_board s) location = Inr False" by simp
      from Board_add_open[OF wf free pl] obtain b1
        where add: "Board_add (the_board s) location (current_player s) = Inr b1"
          and wf1: "wf_grid (grid b1)" and t1: "turn b1 = turn (the_board s)"
          and o1: "occupied EMPTY (grid b1) = Suc (occupied EMPTY (grid (the_board s)))"
        by blast
      show ?thesis
      proof (cases "Board_is_winner b1 (current_player s)")
        case (Inl e)
        from Board_is_winner_raises[OF wf1 Inl] have e: "e = WinnerWinnerChickenDinner" .
        with loc free add Inl step have "s' = s\<lparr>the_board := b1\<rparr>" "st = Won"
          by (simp_all add: Board_main_step_def)
        with wf1 t1 o1 cnt show ?thesis
          by (simp add: Board_won_inv_def)
      next
        case (Inr u)
        obtain b2 r where tie: "Board_is_tie b1 = (b2, r)" by (cases "Board_is_tie b1")
        note eff = Board_is_tie_effect[OF tie]
        have wf2: "wf_grid (grid b2)" using wf1 eff(1) by simp
        have cnt2: "turn b2 = int (occupied EMPTY (grid b2))"
          using eff(1,2) t1 o1 cnt by simp
        show ?thesis
        proof (cases r)
          case (Inl e)
          with eff(3) have "e = YouAllLose" by simp
          with loc free add Inr tie Inl step have "s' = s\<lparr>the_board := b2\<rparr>" "st = Tied"
            by (simp_all add: Board_main_step_def)
          with wf2 cnt2 pl show ?thesis
            by (simp add: Board_inv_def)
        next
          case (Inr u')
          obtain cur p where sw: "switch (players_current s) = (cur, p)"
            by (cases "switch (players_current s)")
          with switch_not_empty[of "players_current s"] have "p \<noteq> EMPTY" by simp
          moreover from loc free add \<open>Board_is_winner b1 (current_player s) = Inr u\<close> tie Inr sw step
          have "s' = s\<lparr>the_board := b2, players_current := cur, current_player := p\<rparr>"
            "st = Running"
            by (simp_all add: Board_main_step_def)
          ultimately show ?thesis using wf2 cnt2
            by (simp add: Board_inv_def)
        qed
      qed
    qed
  qed
qed

lemma Board_main_loop_inv:
  assumes "Board_inv s" and "Board_main_loop s input_lines = (s', st)"
  shows "if st = Won then Board_won_inv s' else Board_inv s'"
  using assms
proof (induction input_lines arbitrary: s)
  case Nil
  then show ?case by simp
next
  case (Cons l ls)
  obtain s1 st1 where step: "Board_main_step s l = (s1, st1)"
    by (cases "Board_main_step s l")
  note inv1 = Board_main_step_inv[OF Cons.prems(1) step]
  show ?case
  proof (cases "st1 = Running")
    case True
    with inv1 have "Board_inv s1" by simp
    moreover from Cons.prems(2) step True have "Board_main_loop s1 ls = (s', st)" by simp
    ultimately show ?thesis by (rule Cons.IH)
  next
    case False
    with Cons.prems(2) step have "s' = s1" "st = st1" by simp_all
    with inv1 show ?thesis by simp
  qed
qed

lemma Board_inv_init: "Board_inv session_init"
proof -
  have "turn Board_init = 0" by (simp add: Board_init_def)
  then show ?thesis
    by (simp add: Board_inv_def session_init_def wf_init occupied_init current_def
        Players_init_def players_tuple_def)
qed

lemma main_except_not_Won: "main_except e \<noteq> Won"
  by (cases e) simp_all

lemma add_to_board_open:
  assumes wf: "wf_grid (board gs)" and free: "is_taken gs coords = Inr False"
  shows "\<exists>gs'. add_to_board gs coords player = Inr gs' \<and> wf_grid (board gs')
           \<and> global_turn gs' = global_turn gs
           \<and> occupied None (board gs') = Suc (occupied None (board gs))"
proof -
  obtain r c where rc: "coords = (r, c)" by (cases coords)
  from free rc have "grid_get (board gs) r c = Inr None"
    by (cases "grid_get (board gs) r c") (auto simp: is_taken_def bind_err_def)
  moreover have "Some player \<noteq> None" by simp
  ultimately show ?thesis
    using place_on_open[OF wf, of r c None "Some player"] rc
    by (auto simp: add_to_board_def bind_err_def)
qed

lemma check_tie_effect:
  assumes "check_tie gs = (gs', tie)"
  shows "board gs' = board gs" and "global_turn gs' = global_turn gs + 1"
  using assms by (auto simp: check_tie_def Let_def)

lemma main_step_inv:
  assumes inv: "main_inv gs" and step: "main_step (gs, player) input_string = ((gs', player'), st)"
  shows "if st = Won then main_won_inv gs' else main_inv gs'"
proof (cases "get_user_input_as_int input_string")
  case (Inl e)
  with step have "gs' = gs" "st = main_except e"
    by (simp_all add: main_step_def)
  with inv main_except_not_Won[of e] show ?thesis by simp
next
  case (Inr location)
  note loc = this
  let ?coords = "linear_position_to_coords location"
  from inv have wf: "wf_grid (board gs)"
    and cnt: "global_turn gs = int (occupied None (board gs))"
    by (simp_all add: main_inv_def)
  show ?thesis
  proof (cases "is_taken gs ?coords")
    case (Inl e)
    with loc step have "gs' = gs" "st = main_except e"
      by (simp_all add: main_step_def)
    with inv main_except_not_Won[of e] show ?thesis by simp
  next
    case (Inr taken)
    show ?thesis
    proof (cases taken)
      case True
      with loc Inr step inv show ?thesis
        by (simp add: main_step_def)
    next
      case False
      with Inr have free: "is_taken gs ?coords = Inr False" by simp
      from add_to_board_open[OF wf free] obtain gs1
        where add: "add_to_board gs ?coords player = Inr gs1"
          and wf1: "wf_grid (board gs1)" and t1: "global_turn gs1 = global_turn gs"
          and o1: "occupied None (board gs1) = Suc (occupied None (board gs))"
        by blast
      note win = chicken_dinner_wf[OF wf1, of player]
      show ?thesis
      proof (cases "has_won (board gs1) (Some player)")
        case True
        with loc free add win step have "gs' = gs1" "st = Won"
          by (simp_all add: main_step_def)
        with wf1 t1 o1 cnt show ?thesis
          by (simp add: main_won_inv_def)
      next
        case False
        obtain gs2 tie where tie: "check_tie gs1 = (gs2, tie)" by (cases "check_tie gs1")
        note eff = check_tie_effect[OF tie]
        from loc free add win False tie step have "gs' = gs2" "st \<noteq> Won"
          by (simp_all add: main_step_def split: if_splits)
        with wf1 t1 o1 cnt eff show ?thesis
          by (simp add: main_inv_def)
      qed
    qed
  qed
qed

lemma main_loop_inv:
  assumes "main_inv gs" and "main_loop (gs, player) input_lines = ((gs', player'), st)"
  shows "if st = Won then main_won_inv gs' else main_inv gs'"
  using assms
proof (induction input_lines arbitrary: gs player)
  case Nil
  then show ?case by simp
next
  case (Cons l ls)
  obtain gs1 player1 st1 where step: "main_step (gs, player) l = ((gs1, player1), st1)"
    by (cases "main_step (gs, player) l") auto
  note inv1 = main_step_inv[OF Cons.prems(1) step]
  show ?case
  proof (cases "st1 = Running")
    case True
    with inv1 have "main_inv gs1" by simp
    moreover from Cons.prems(2) step True
    have "main_loop (gs1, player1) ls = ((gs', player'), st)" by simp
    ultimately show ?thesis by (rule Cons.IH)
  next
    case False
    with Cons.prems(2) step have "gs' = gs1" "st = st1" by simp_all
    with inv1 show ?thesis by simp
  qed
qed

lemma main_inv_init: "main_inv globals_init"
proof -
  have "global_turn globals_init = 0" by (simp add: globals_init_def)
  then show ?thesis
    by (simp add: main_inv_def wf_init occupied_init)
qed

text \<open>
  C4, as stated, fails in the state in which the loop ends by a win: the winning mark is on
  the grid, but the counter is incremented by the tie check only, which a win skips. After
  the lines 1, 4, 2, 5, 3 the first player has won with five marks on the grid and the
  counter is 4.
\<close>

theorem C4_win_state_counterexample:
  "snd (main [''1'', ''4'', ''2'', ''5'', ''3'']) = Won
   \<and> global_turn (fst (fst (main [''1'', ''4'', ''2'', ''5'', ''3'']))) = 4
   \<and> occupied None (board (fst (fst (main [''1'', ''4'', ''2'', ''5'', ''3''])))) = 5
   \<and> snd (Board_main [''1'', ''4'', ''2'', ''5'', ''3'']) = Won
   \<and> turn (the_board (fst (Board_main [''1'', ''4'', ''2'', ''5'', ''3'']))) = 4
   \<and> occupied EMPTY (grid (the_board (fst (Board_main [''1'', ''4'', ''2'', ''5'', ''3''])))) = 5"
  by code_simp

text \<open>
  C4, amended: in every state that the game loop reaches from a fresh board (at the prompt
  of an iteration, or when the loop has ended by a tie, by the user's exit or by an uncaught
  exception) the move counter equals the number of non-empty cells of the grid; when the
  loop has ended by a win, the counter is one less than that number.
\<close>

theorem C4_turn_counts_cells:
  "(case main input_lines of
      ((gs, player), st) \<Rightarrow>
        wf_grid (board gs)
        \<and> global_turn gs = int (occupied None (board gs)) - (if st = Won then 1 else 0))
   \<and> (case Board_main input_lines' of
        (s, st) \<Rightarrow>
          wf_grid (grid (the_board s))
          \<and> turn (the_board s) =
              int (occupied EMPTY (grid (the_board s))) - (if st = Won then 1 else 0))"
proof -
  obtain gs player st where m: "main input_lines = ((gs, player), st)"
    by (cases "main input_lines") auto
  obtain s st' where b: "Board_main input_lines' = (s, st')"
    by (cases "Board_main input_lines'")
  from m have "if st = Won then main_won_inv gs else main_inv gs"
    unfolding main_def by (rule main_loop_inv[OF main_inv_init])
  moreover from b have "if st' = Won then Board_won_inv s else Board_inv s"
    unfolding Board_main_def by (rule Board_main_loop_inv[OF Board_inv_init])
  ultimately show ?thesis
    unfolding m b
    by (simp add: main_inv_def main_won_inv_def Board_inv_def Board_won_inv_def
        split: if_splits)
qed

theorem C4_turn_counts_cells_witness:
  "snd (main [''1'', ''2'']) = Running
   \<and> global_turn (fst (fst (main [''1'', ''2''])))
       = int (occupied None (board (fst (fst (main [''1'', ''2''])))))
   \<and> snd (Board_main [''1'', ''4'', ''2'', ''5'', ''3'']) = Won
   \<and> turn (the_board (fst (Board_main [''1'', ''4'', ''2'', ''5'', ''3''])))
       = int (occupied EMPTY (grid (the_board (fst (Board_main [''1'', ''4'', ''2'', ''5'', ''3''])))))
         - 1"
proof -
  have r: "snd (main [''1'', ''2'']) = Running"
    by code_simp
  have w: "snd (Board_main [''1'', ''4'', ''2'', ''5'', ''3'']) = Won"
    by code_simp
  from C4_turn_counts_cells[of "[''1'', ''2'']" "[''1'', ''4'', ''2'', ''5'', ''3'']"] r w
  show ?thesis
    by (simp add: split_beta)
qed

end
